theory Spec2Isabelle
  imports Complex_Main
begin

section \<open>cool\_btc\_bot.py: the alerting engine of the BTC bot\<close>

text \<open>
  A shallow embedding of \<^verbatim>\<open>src/cool_btc_bot.py\<close>. The module keeps three globals
  (\<^verbatim>\<open>_subs\<close>, \<^verbatim>\<open>_interval\<close>, \<^verbatim>\<open>_fail_seq\<close>) and two JSON files; every function of the
  source that touches them is a function on an explicit state here. What the module
  reaches outside the process is an input of the model: the answer of the Binance
  request, the outcome of each \<^verbatim>\<open>bot.send_message\<close>, and whether a file write goes
  through.

  A Python float is modelled by the \<^typ>\<open>real\<close> it stands for (a finite double; no NaN,
  no infinity as a price), and the one float operation the module performs, the
  subtraction \<^verbatim>\<open>p - last\<close>, rounds as IEEE 754 does. Python integers are \<^typ>\<open>int\<close>. A
  text (callback data, a message) is a \<^typ>\<open>string\<close> whose characters are the code
  points below 256. Message texts are kept as structured values: the source formats
  them with f-strings whose content is the data carried here.

  Each handler and each watcher pass runs as one step: the model does not interleave
  them at the \<^verbatim>\<open>await\<close> points. A send either is delivered or raises
  \<^verbatim>\<open>TelegramError\<close>; the replies a handler makes to its own caller are results of the
  model and are not sent through that transport. Exceptions the source does not handle
  by name (a \<^verbatim>\<open>TypeError\<close> from a ticker payload that is not an object, say) are outside
  the model.
\<close>

subsection \<open>Constants\<close>

definition DEFAULT_INT :: int where
  "DEFAULT_INT = 200"

definition CHOICES :: "int list" where
  "CHOICES = [50, 100, 200, 500]"

definition FAIL_LIMIT :: nat where
  "FAIL_LIMIT = 5"

datatype path = STATE_FILE | COLLAB_FILE

subsection \<open>Dictionaries\<close>

text \<open>
  A chat identifier arrives from Telegram as an integer; a dictionary read back from JSON
  has string keys. Both kinds of key can therefore sit in \<^verbatim>\<open>_subs\<close>, and in Python
  \<^verbatim>\<open>123 == "123"\<close> is false.
\<close>

datatype pykey = KInt int | KStr string

text \<open>
  A Python \<^verbatim>\<open>dict\<close> keeps insertion order: assigning to a key that is present replaces the
  value in place, assigning to a new key appends.
\<close>

type_synonym 'v pydict = "(pykey \<times> 'v) list"

fun dict_get :: "'v pydict \<Rightarrow> pykey \<Rightarrow> 'v option" where
  "dict_get [] k = None"
| "dict_get ((k', v) # d) k = (if k' = k then Some v else dict_get d k)"

fun dict_set :: "pykey \<Rightarrow> 'v \<Rightarrow> 'v pydict \<Rightarrow> 'v pydict" where
  "dict_set k v [] = [(k, v)]"
| "dict_set k v ((k', v') # d) = (if k' = k then (k, v) # d else (k', v') # dict_set k v d)"

fun dict_del :: "pykey \<Rightarrow> 'v pydict \<Rightarrow> 'v pydict" where
  "dict_del k [] = []"
| "dict_del k ((k', v') # d) = (if k' = k then d else (k', v') # dict_del k d)"

text \<open>\<^verbatim>\<open>d.pop(k, None)\<close>: the value removed (or \<^verbatim>\<open>None\<close>) and the dictionary left.\<close>

definition dict_pop :: "pykey \<Rightarrow> 'v pydict \<Rightarrow> 'v option \<times> 'v pydict" where
  "dict_pop k d = (dict_get d k, dict_del k d)"

definition dict_contains :: "pykey \<Rightarrow> 'v pydict \<Rightarrow> bool" where
  "dict_contains k d = (dict_get d k \<noteq> None)"

text \<open>Truthiness of a Python float, and of an optional float (\<^verbatim>\<open>None\<close> is falsy).\<close>

definition truthy :: "real \<Rightarrow> bool" where
  "truthy x = (x \<noteq> 0)"

definition truthy_opt :: "real option \<Rightarrow> bool" where
  "truthy_opt r = (case r of None \<Rightarrow> False | Some x \<Rightarrow> truthy x)"

subsection \<open>Integers as text\<close>

definition digit_chars :: string where
  "digit_chars = ''0123456789''"

fun str_nat :: "nat \<Rightarrow> string" where
  "str_nat n = (if n < 10 then [digit_chars ! n] else str_nat (n div 10) @ [digit_chars ! (n mod 10)])"

declare str_nat.simps [simp del]

text \<open>\<^verbatim>\<open>str(n)\<close> for a Python integer.\<close>

definition str_int :: "int \<Rightarrow> string" where
  "str_int i = (if i < 0 then CHR ''-'' # str_nat (nat (- i)) else str_nat (nat i))"

definition is_digit :: "char \<Rightarrow> bool" where
  "is_digit c = (c \<in> set digit_chars)"

definition digit_val :: "char \<Rightarrow> nat" where
  "digit_val c = of_char c - 48"

text \<open>
  \<^verbatim>\<open>int()\<close> first rewrites the text to ASCII: a code point below 127 stays, a Unicode
  white space from 127 on (below 256: U+0085 and U+00A0) becomes a blank, a Unicode
  decimal digit becomes its ASCII digit (there is none below 256), and anything else
  becomes a question mark, which no number contains.
\<close>

definition to_ascii :: "char \<Rightarrow> char" where
  "to_ascii c = (if (of_char c :: nat) < 127 then c
                 else if c = CHR 0x85 \<or> c = CHR 0xA0 then CHR '' ''
                 else CHR ''?'')"

text \<open>The white space the parser of the ASCII text skips at both ends.\<close>

definition is_space :: "char \<Rightarrow> bool" where
  "is_space c = (c \<in> {CHR '' '', CHR 0x09, CHR 0x0A, CHR 0x0B, CHR 0x0C, CHR 0x0D})"

text \<open>The default of \<^verbatim>\<open>sys.get_int_max_str_digits()\<close>: more digits raise \<^verbatim>\<open>ValueError\<close>.\<close>

definition int_max_str_digits :: nat where
  "int_max_str_digits = 4300"

text \<open>
  The digits of a decimal literal as \<^verbatim>\<open>int()\<close> reads them: a digit first, then digits, each
  optionally preceded by one underscore.
\<close>

fun int_digits :: "nat \<Rightarrow> string \<Rightarrow> nat option" where
  "int_digits acc [] = Some acc"
| "int_digits acc [c] = (if is_digit c then Some (10 * acc + digit_val c) else None)"
| "int_digits acc (c # d # cs) =
     (if is_digit c then int_digits (10 * acc + digit_val c) (d # cs)
      else if c = CHR ''_'' \<and> is_digit d then int_digits acc (d # cs)
      else None)"

definition int_unsigned :: "string \<Rightarrow> nat option" where
  "int_unsigned cs = (case cs of [] \<Rightarrow> None
     | c # _ \<Rightarrow>
         if is_digit c \<and> length (filter is_digit cs) \<le> int_max_str_digits
         then int_digits 0 cs else None)"

definition strip :: "string \<Rightarrow> string" where
  "strip cs = rev (dropWhile is_space (rev (dropWhile is_space cs)))"

text \<open>
  \<^verbatim>\<open>int(text)\<close>: the text is rewritten to ASCII, surrounding white space is dropped, one
  sign is allowed; \<open>None\<close> stands for the \<^verbatim>\<open>ValueError\<close>.
\<close>

definition py_int :: "string \<Rightarrow> int option" where
  "py_int s = (case strip (map to_ascii s) of
       [] \<Rightarrow> None
     | c # cs \<Rightarrow>
         if c = CHR ''-'' then map_option (\<lambda>n. - int n) (int_unsigned cs)
         else if c = CHR ''+'' then map_option int (int_unsigned cs)
         else map_option int (int_unsigned (c # cs)))"

subsection \<open>Float subtraction\<close>

text \<open>
  A double has 53 significant bits. \<open>expo x\<close> is the binary exponent of a positive
  \<open>x\<close> (the \<open>e\<close> with \<open>2^e \<le> x < 2^(e+1)\<close>), \<open>round53\<close> rounds to the nearest
  real with 53 significant bits, ties to the even one.
\<close>

fun ilog2 :: "nat \<Rightarrow> nat" where
  "ilog2 n = (if n < 2 then 0 else Suc (ilog2 (n div 2)))"

declare ilog2.simps [simp del]

definition clog2 :: "nat \<Rightarrow> nat" where
  "clog2 m = (if m \<le> 1 then 0 else Suc (ilog2 (m - 1)))"

definition pow2 :: "int \<Rightarrow> real" where
  "pow2 k = (if 0 \<le> k then 2 ^ nat k else 1 / 2 ^ nat (- k))"

definition expo :: "real \<Rightarrow> int" where
  "expo x = (if 1 \<le> x then int (ilog2 (nat \<lfloor>x\<rfloor>)) else - int (clog2 (nat \<lceil>1 / x\<rceil>)))"

definition round_half_even :: "real \<Rightarrow> int" where
  "round_half_even x =
     (let f = \<lfloor>x\<rfloor>; r = x - of_int f
      in if r < 1 / 2 then f else if 1 / 2 < r then f + 1 else if even f then f else f + 1)"

definition round53 :: "real \<Rightarrow> real" where
  "round53 x =
     (if x = 0 then 0
      else (let u = pow2 (expo \<bar>x\<bar> - 52) in of_int (round_half_even (x / u)) * u))"

text \<open>
  The difference of two doubles is the rounded exact difference, or an infinity when
  that reaches \<open>2^1024\<close>. (A difference in the subnormal range is exact and has fewer
  than 53 bits.)
\<close>

datatype pyfloat = Fin real | PInf | NInf

definition fsub :: "real \<Rightarrow> real \<Rightarrow> pyfloat" where
  "fsub a b =
     (let d = round53 (a - b)
      in if pow2 1024 \<le> d then PInf else if d \<le> - pow2 1024 then NInf else Fin d)"

text \<open>\<^verbatim>\<open>abs(d) >= n\<close> and \<^verbatim>\<open>d > 0\<close> for a float \<open>d\<close> and an integer \<open>n\<close>.\<close>

fun fabs_ge :: "pyfloat \<Rightarrow> int \<Rightarrow> bool" where
  "fabs_ge (Fin d) n = (\<bar>d\<bar> \<ge> real_of_int n)"
| "fabs_ge PInf n = True"
| "fabs_ge NInf n = True"

fun fpos :: "pyfloat \<Rightarrow> bool" where
  "fpos (Fin d) = (d > 0)"
| "fpos PInf = True"
| "fpos NInf = False"

subsection \<open>Log, messages, files, state\<close>

datatype log_entry =
    LogPrice real
  | LogBadJson nat
  | LogHttpError nat
  | LogFailLimit nat
  | LogReadError path
  | LogWriteError path
  | LogSubscribed int real
  | LogUnsubscribed int
  | LogInterval int int int
  | LogNotifyFailed int
  | LogSendError int

datatype message =
    PriceIs real
  | PriceUnavailable
  | PriceUnavailableRetry
  | Subscribed
  | Unsubscribed
  | Welcome int
  | CurrentInterval int
  | AskInterval
  | NeedPositiveInt
  | IntervalChanged int int
  | Alert bool real pyfloat int

text \<open>
  A file is absent, unreadable (\<^verbatim>\<open>json.loads\<close> or the read raises), or holds a document.
  The state file holds a JSON object of numbers, the other file a JSON object of integers:
  the two shapes \<^verbatim>\<open>write_json\<close> is called with.
\<close>

datatype 'd stored = Absent | Unreadable | Doc 'd

type_synonym subs_doc = "(string \<times> real) list"
type_synonym collab_doc = "(string \<times> int) list"

record state =
  subs :: "real pydict"
  interval :: int
  fail_seq :: nat
  state_file :: "subs_doc stored"
  collab_file :: "collab_doc stored"
  awaiting :: "int set"
  sent :: "(pykey \<times> message \<times> bool) list"
  log :: "log_entry list"

text \<open>
  \<open>subs\<close>, \<open>interval\<close> and \<open>fail_seq\<close> are the globals \<^verbatim>\<open>_subs\<close>, \<^verbatim>\<open>_interval\<close> and
  \<^verbatim>\<open>_fail_seq\<close>; \<open>awaiting\<close> is the set of users whose \<^verbatim>\<open>user_data["await_int"]\<close> is set;
  \<open>sent\<close> lists every \<^verbatim>\<open>bot.send_message\<close> call in order, with whether it was delivered;
  \<open>log\<close> is what went to the logger.
\<close>

text \<open>
  The two log calls about a recipient format the key with \<^verbatim>\<open>%d\<close>. For an integer
  key the entry is written. For a string key the formatting raises inside the logging
  module, which reports that on standard error and writes no entry; the caller goes on.
\<close>

fun log_chat :: "(int \<Rightarrow> log_entry) \<Rightarrow> pykey \<Rightarrow> log_entry list" where
  "log_chat entry (KInt i) = [entry i]"
| "log_chat entry (KStr k) = []"

text \<open>What a function of the source meets outside the process during one call.\<close>

datatype response = Ticker real | BadPayload | HttpFailure

record env =
  binance :: response
  deliver :: "pykey \<Rightarrow> message \<Rightarrow> bool"
  disk_ok :: bool

subsection \<open>The price source: \<^verbatim>\<open>get_price\<close>\<close>

text \<open>
  \<open>Ticker p\<close>: the request succeeds and \<^verbatim>\<open>float(r.json()["price"])\<close> is \<open>p\<close>.
  \<open>BadPayload\<close>: a \<^verbatim>\<open>ValueError\<close> or \<^verbatim>\<open>KeyError\<close>. \<open>HttpFailure\<close>: a
  \<^verbatim>\<open>requests.RequestException\<close>. After either failure the function falls through to the
  test against \<^verbatim>\<open>FAIL_LIMIT\<close> and returns \<^verbatim>\<open>None\<close>.
\<close>

definition fail_tail :: "state \<Rightarrow> real option \<times> state" where
  "fail_tail s =
     (None, if fail_seq s \<ge> FAIL_LIMIT then s\<lparr>log := log s @ [LogFailLimit FAIL_LIMIT]\<rparr> else s)"

definition get_price :: "response \<Rightarrow> state \<Rightarrow> real option \<times> state" where
  "get_price r s = (case r of
       Ticker p \<Rightarrow> (Some p, s\<lparr>fail_seq := 0, log := log s @ [LogPrice p]\<rparr>)
     | BadPayload \<Rightarrow>
         fail_tail (s\<lparr>fail_seq := fail_seq s + 1, log := log s @ [LogBadJson (fail_seq s + 1)]\<rparr>)
     | HttpFailure \<Rightarrow>
         fail_tail (s\<lparr>fail_seq := fail_seq s + 1, log := log s @ [LogHttpError (fail_seq s + 1)]\<rparr>))"

text \<open>A run of fetches, one after the other, as the polling loop makes them.\<close>

fun fetches :: "response list \<Rightarrow> state \<Rightarrow> state" where
  "fetches [] s = s"
| "fetches (r # rs) s = fetches rs (snd (get_price r s))"

definition is_failure :: "response \<Rightarrow> bool" where
  "is_failure r = (case r of Ticker p \<Rightarrow> False | _ \<Rightarrow> True)"

definition escalations :: "log_entry list \<Rightarrow> nat" where
  "escalations l = length (filter (\<lambda>e. case e of LogFailLimit n \<Rightarrow> True | _ \<Rightarrow> False) l)"

definition fresh :: state where
  "fresh = \<lparr>subs = [], interval = DEFAULT_INT, fail_seq = 0, state_file = Absent,
            collab_file = Absent, awaiting = {}, sent = [], log = []\<rparr>"

subsection \<open>The persistent store: \<^verbatim>\<open>read_json\<close>, \<^verbatim>\<open>write_json\<close>\<close>

fun key_str :: "pykey \<Rightarrow> string" where
  "key_str (KInt i) = str_int i"
| "key_str (KStr s) = s"

text \<open>
  \<^verbatim>\<open>json.dumps\<close> of a dictionary writes every key as a string (an integer key as its
  decimal text) and keeps the order of the items.
\<close>

definition json_dumps :: "'v pydict \<Rightarrow> (string \<times> 'v) list" where
  "json_dumps d = map (\<lambda>(k, v). (key_str k, v)) d"

text \<open>
  \<^verbatim>\<open>json.loads\<close> of an object builds a dictionary with string keys, member by member; a
  name that occurs twice keeps its first place and its last value.
\<close>

definition json_loads :: "(string \<times> 'v) list \<Rightarrow> 'v pydict" where
  "json_loads doc = foldl (\<lambda>d (k, v). dict_set (KStr k) v d) [] doc"

definition read_json :: "path \<Rightarrow> (string \<times> 'v) list stored \<Rightarrow> 'v pydict \<Rightarrow> 'v pydict \<times> log_entry list" where
  "read_json path f dflt = (case f of
       Absent \<Rightarrow> (dflt, [])
     | Unreadable \<Rightarrow> (dflt, [LogReadError path])
     | Doc doc \<Rightarrow> (json_loads doc, []))"

text \<open>
  \<^verbatim>\<open>write_json\<close> writes a temporary file and moves it over the target; when anything in
  that raises (\<open>ok\<close> false) the target keeps what it held and the error is logged.
\<close>

definition write_json ::
  "path \<Rightarrow> (string \<times> 'v) list stored \<Rightarrow> 'v pydict \<Rightarrow> bool \<Rightarrow> (string \<times> 'v) list stored \<times> log_entry list" where
  "write_json path f data ok = (if ok then (Doc (json_dumps data), []) else (f, [LogWriteError path]))"

text \<open>The two calls the module makes: \<^verbatim>\<open>write_json(STATE_FILE, _subs)\<close> and
  \<^verbatim>\<open>write_json(COLLAB_FILE, {"interval": _interval})\<close>.\<close>

definition write_state :: "env \<Rightarrow> state \<Rightarrow> state" where
  "write_state e s =
     (let (f, l) = write_json STATE_FILE (state_file s) (subs s) (disk_ok e)
      in s\<lparr>state_file := f, log := log s @ l\<rparr>)"

definition write_collab :: "env \<Rightarrow> state \<Rightarrow> state" where
  "write_collab e s =
     (let (f, l) = write_json COLLAB_FILE (collab_file s) [(KStr ''interval'', interval s)] (disk_ok e)
      in s\<lparr>collab_file := f, log := log s @ l\<rparr>)"

subsection \<open>Keyboards and replies\<close>

datatype keyboard = NoKbd | MainKbd bool | IntervalKbd

text \<open>The \<^verbatim>\<open>callback_data\<close> of the buttons of each keyboard (\<^verbatim>\<open>main_kbd\<close>, and the
  rows built in the \<^verbatim>\<open>"interval"\<close> branch of \<^verbatim>\<open>cb_btn\<close>).\<close>

definition main_kbd :: "bool \<Rightarrow> string list" where
  "main_kbd subscribed =
     (if subscribed then [''noop'', ''unsub''] else [''sub'']) @ [''interval'', ''price'']"

definition interval_kbd :: "string list" where
  "interval_kbd = map (\<lambda>n. ''step_'' @ str_int n) CHOICES @ [''step_custom'']"

fun kbd_data :: "keyboard \<Rightarrow> string list" where
  "kbd_data NoKbd = []"
| "kbd_data (MainKbd b) = main_kbd b"
| "kbd_data IntervalKbd = interval_kbd"

type_synonym reply = "message \<times> keyboard"

text \<open>\<^verbatim>\<open>f"BTC = {fprice(p)}" if p else "..."\<close>: the test is the truthiness of \<^verbatim>\<open>p\<close>.\<close>

definition price_reply :: "real option \<Rightarrow> message" where
  "price_reply p = (if truthy_opt p then (case p of Some x \<Rightarrow> PriceIs x | None \<Rightarrow> PriceUnavailable)
                    else PriceUnavailable)"

subsection \<open>Changing the interval: \<^verbatim>\<open>change_interval\<close>\<close>

fun notify_loop :: "env \<Rightarrow> message \<Rightarrow> int \<Rightarrow> bool \<Rightarrow> pykey list \<Rightarrow> state \<Rightarrow> state" where
  "notify_loop e txt by_uid notify_changer [] s = s"
| "notify_loop e txt by_uid notify_changer (uid # uids) s =
     (if uid = KInt by_uid \<and> \<not> notify_changer then notify_loop e txt by_uid notify_changer uids s
      else if deliver e uid txt
        then notify_loop e txt by_uid notify_changer uids (s\<lparr>sent := sent s @ [(uid, txt, True)]\<rparr>)
        else notify_loop e txt by_uid notify_changer uids
               (s\<lparr>sent := sent s @ [(uid, txt, False)],
                   log := log s @ log_chat LogNotifyFailed uid\<rparr>))"

definition change_interval :: "env \<Rightarrow> int \<Rightarrow> int \<Rightarrow> bool \<Rightarrow> state \<Rightarrow> message \<times> state" where
  "change_interval e val by_uid notify_changer s =
     (let old = interval s;
          s1 = write_collab e (s\<lparr>interval := val\<rparr>);
          s2 = s1\<lparr>log := log s1 @ [LogInterval old val by_uid]\<rparr>;
          txt = IntervalChanged old val
      in (txt, notify_loop e txt by_uid notify_changer (map fst (subs s2)) s2))"

subsection \<open>Commands, buttons and text\<close>

definition cmd_start :: "int \<Rightarrow> state \<Rightarrow> reply" where
  "cmd_start uid s = (Welcome (interval s), MainKbd (dict_contains (KInt uid) (subs s)))"

definition cmd_price :: "env \<Rightarrow> state \<Rightarrow> reply \<times> state" where
  "cmd_price e s = (let (p, s1) = get_price (binance e) s in ((price_reply p, NoKbd), s1))"

definition starts_with :: "string \<Rightarrow> string \<Rightarrow> bool" where
  "starts_with pre s = (take (length pre) s = pre)"

text \<open>\<^verbatim>\<open>data.split("_", 1)[1]\<close>: what follows the first underscore.\<close>

definition after_underscore :: "string \<Rightarrow> string" where
  "after_underscore s = tl (dropWhile (\<lambda>c. c \<noteq> CHR ''_'') s)"

text \<open>
  \<open>cb_btn\<close> from after \<^verbatim>\<open>q.answer()\<close>. \<open>uid\<close> is the chat, \<open>user\<close> the owner of
  \<^verbatim>\<open>ctx.user_data\<close>. The reply is \<open>None\<close> when the handler sends none: for data that
  matches no branch, and when \<^verbatim>\<open>int()\<close> raises on the text after \<^verbatim>\<open>step_\<close>.
\<close>

definition cb_btn :: "env \<Rightarrow> int \<Rightarrow> int \<Rightarrow> string \<Rightarrow> state \<Rightarrow> reply option \<times> state" where
  "cb_btn e user uid data s =
     (if data = ''price'' then
        (let (p, s1) = get_price (binance e) s in (Some (price_reply p, NoKbd), s1))
      else if data = ''sub'' then
        (let (p, s1) = get_price (binance e) s in
         case p of
           None \<Rightarrow> (Some (PriceUnavailableRetry, NoKbd), s1)
         | Some x \<Rightarrow>
             (let s2 = write_state e (s1\<lparr>subs := dict_set (KInt uid) x (subs s1)\<rparr>);
                  s3 = s2\<lparr>log := log s2 @ [LogSubscribed uid x]\<rparr>
              in (Some (Subscribed, MainKbd True), s3)))
      else if data = ''unsub'' then
        (let (v, d) = dict_pop (KInt uid) (subs s);
             s1 = s\<lparr>subs := d\<rparr>;
             s2 = (if truthy_opt v
                   then (let s' = write_state e s1 in s'\<lparr>log := log s' @ [LogUnsubscribed uid]\<rparr>)
                   else s1)
         in (Some (Unsubscribed, MainKbd False), s2))
      else if data = ''interval'' then
        (Some (CurrentInterval (interval s), IntervalKbd), s)
      else if starts_with ''step_'' data then
        (if data = ''step_custom'' then
           (Some (AskInterval, NoKbd), s\<lparr>awaiting := insert user (awaiting s)\<rparr>)
         else (case py_int (after_underscore data) of
             None \<Rightarrow> (None, s)
           | Some val \<Rightarrow>
               (let (txt, s1) = change_interval e val uid False s
                in (Some (txt, MainKbd (dict_contains (KInt uid) (subs s1))), s1))))
      else (None, s))"

definition msg_text :: "env \<Rightarrow> int \<Rightarrow> int \<Rightarrow> string \<Rightarrow> state \<Rightarrow> reply option \<times> state" where
  "msg_text e user uid text s =
     (if user \<notin> awaiting s then (None, s)
      else
        (let s1 = s\<lparr>awaiting := awaiting s - {user}\<rparr> in
         case py_int text of
           None \<Rightarrow> (Some (NeedPositiveInt, NoKbd), s1)
         | Some val \<Rightarrow>
             if val \<le> 0 then (Some (NeedPositiveInt, NoKbd), s1)
             else (let (txt, s2) = change_interval e val uid False s1
                   in (Some (txt, NoKbd), s2))))"

subsection \<open>The watcher\<close>

text \<open>
  The body of the \<^verbatim>\<open>for uid, last in list(_subs.items())\<close> loop, over the snapshot taken
  when the loop starts. \<^verbatim>\<open>_subs[uid] = p\<close> follows \<^verbatim>\<open>send_message\<close> inside the
  \<^verbatim>\<open>try\<close>, so it runs only when the send did not raise.
\<close>

fun alert_loop :: "env \<Rightarrow> real \<Rightarrow> int \<Rightarrow> (pykey \<times> real) list \<Rightarrow> state \<Rightarrow> state" where
  "alert_loop e p step [] s = s"
| "alert_loop e p step ((uid, last') # items) s =
     (if fabs_ge (fsub p last') step then
        (let diff = fsub p last';
             txt = Alert (fpos diff) p diff step
         in if deliver e uid txt
            then alert_loop e p step items
                   (s\<lparr>sent := sent s @ [(uid, txt, True)], subs := dict_set uid p (subs s)\<rparr>)
            else alert_loop e p step items
                   (s\<lparr>sent := sent s @ [(uid, txt, False)],
                       log := log s @ log_chat LogSendError uid\<rparr>))
      else alert_loop e p step items s)"

text \<open>One pass of the \<^verbatim>\<open>while True\<close> body (the sleep aside).\<close>

definition watcher_cycle :: "env \<Rightarrow> state \<Rightarrow> state" where
  "watcher_cycle e s =
     (let (p, s1) = get_price (binance e) s in
      case p of
        None \<Rightarrow> s1
      | Some x \<Rightarrow> write_state e (alert_loop e x (interval s1) (subs s1) s1))"

text \<open>The loop never leaves: any number of passes is a state.\<close>

fun watcher :: "env list \<Rightarrow> state \<Rightarrow> state" where
  "watcher [] s = s"
| "watcher (e # es) s = watcher es (watcher_cycle e s)"

subsection \<open>Start-up: \<^verbatim>\<open>main\<close>\<close>

definition main :: "subs_doc stored \<Rightarrow> collab_doc stored \<Rightarrow> state" where
  "main sf cf =
     (let (d, l1) = read_json STATE_FILE sf [];
          (c, l2) = read_json COLLAB_FILE cf [(KStr ''interval'', DEFAULT_INT)];
          i = (case dict_get c (KStr ''interval'') of Some n \<Rightarrow> n | None \<Rightarrow> DEFAULT_INT)
      in \<lparr>subs = d, interval = i, fail_seq = 0, state_file = sf, collab_file = cf,
          awaiting = {}, sent = [], log = l1 @ l2\<rparr>)"

text \<open>A restart: the process ends and \<^verbatim>\<open>main\<close> runs on the files as they are.\<close>

definition restart :: "state \<Rightarrow> state" where
  "restart s = main (state_file s) (collab_file s)"

subsection \<open>Events\<close>

datatype event =
    Start int
  | PriceCmd
  | Button int int string
  | Text int int string
  | Tick
  | Restart

fun handle :: "env \<Rightarrow> event \<Rightarrow> state \<Rightarrow> state" where
  "handle e (Start uid) s = s"
| "handle e PriceCmd s = snd (cmd_price e s)"
| "handle e (Button user uid data) s = snd (cb_btn e user uid data s)"
| "handle e (Text user uid text) s = snd (msg_text e user uid text s)"
| "handle e Tick s = watcher_cycle e s"
| "handle e Restart s = restart s"

fun run :: "(env \<times> event) list \<Rightarrow> state \<Rightarrow> state" where
  "run [] s = s"
| "run ((e, ev) # evs) s = run evs (handle e ev s)"

text \<open>The messages one watcher pass hands to \<^verbatim>\<open>send_message\<close>, and their recipients.\<close>

definition cycle_sent :: "env \<Rightarrow> state \<Rightarrow> (pykey \<times> message \<times> bool) list" where
  "cycle_sent e s = drop (length (sent s)) (sent (watcher_cycle e s))"

definition alerted :: "env \<Rightarrow> state \<Rightarrow> pykey \<Rightarrow> bool" where
  "alerted e s uid = (uid \<in> set (map fst (cycle_sent e s)))"

text \<open>The test \<^verbatim>\<open>abs(p - last) >= step\<close> of the loop, and the text it sends.\<close>

definition due :: "real \<Rightarrow> int \<Rightarrow> real \<Rightarrow> bool" where
  "due p step last' = fabs_ge (fsub p last') step"

definition alert_text :: "real \<Rightarrow> int \<Rightarrow> real \<Rightarrow> message" where
  "alert_text p step last' = Alert (fpos (fsub p last')) p (fsub p last') step"

subsection \<open>Predicates for the statements\<close>

text \<open>The callback data a user can send by pressing a button the bot has shown.\<close>

definition offered_data :: "string list" where
  "offered_data = kbd_data (MainKbd True) @ kbd_data (MainKbd False) @ kbd_data IntervalKbd"

fun offered :: "event \<Rightarrow> bool" where
  "offered (Button user uid data) = (data \<in> set offered_data)"
| "offered ev = True"

text \<open>The texts \<^verbatim>\<open>msg_text\<close> refuses: \<^verbatim>\<open>int()\<close> raises, or the value is not positive.\<close>

definition rejected :: "string \<Rightarrow> bool" where
  "rejected text = (case py_int text of None \<Rightarrow> True | Some val \<Rightarrow> val \<le> 0)"

text \<open>Callback data that sets no threshold, or a positive one.\<close>

definition step_ok :: "string \<Rightarrow> bool" where
  "step_ok data =
     (if starts_with ''step_'' data \<and> data \<noteq> ''step_custom''
      then (case py_int (after_underscore data) of None \<Rightarrow> False | Some val \<Rightarrow> 0 < val)
      else True)"

text \<open>The threshold file holds no \<^verbatim>\<open>interval\<close>, or a positive one.\<close>

definition positive_store :: "collab_doc stored \<Rightarrow> bool" where
  "positive_store f = (case f of
       Doc doc \<Rightarrow> (case dict_get (json_loads doc) (KStr ''interval'') of
                     Some n \<Rightarrow> 0 < n | None \<Rightarrow> True)
     | _ \<Rightarrow> True)"

definition threshold_ok :: "state \<Rightarrow> bool" where
  "threshold_ok s = (0 < interval s \<and> positive_store (collab_file s))"


subsection \<open>Example inputs\<close>

definition always_delivers :: "pykey \<Rightarrow> message \<Rightarrow> bool" where
  "always_delivers uid txt = True"

definition never_delivers :: "pykey \<Rightarrow> message \<Rightarrow> bool" where
  "never_delivers uid txt = False"

definition env_ok :: "response \<Rightarrow> env" where
  "env_ok r = \<lparr>binance = r, deliver = always_delivers, disk_ok = True\<rparr>"

definition env_mute :: "response \<Rightarrow> env" where
  "env_mute r = \<lparr>binance = r, deliver = never_delivers, disk_ok = True\<rparr>"

definition one_sub :: state where
  "one_sub = fresh\<lparr>subs := [(KInt 1, 50000)]\<rparr>"

definition two_subs :: state where
  "two_subs = fresh\<lparr>subs := [(KInt 1, 50000), (KInt 2, 49000)]\<rparr>"

text \<open>\<^verbatim>\<open>float("50199.99")\<close>, and the two prices \<^verbatim>\<open>float("99903.7")\<close> and
  \<^verbatim>\<open>float("29903.7")\<close> whose exact difference is just below 70000.\<close>

definition just_below :: real where
  "just_below = round53 (5019999 / 100)"

definition price_99903_7 :: real where
  "price_99903_7 = round53 (999037 / 10)"

definition price_29903_7 :: real where
  "price_29903_7 = round53 (299037 / 10)"

text \<open>A transport on which only chat 1 is unreachable.\<close>

definition blocked_1 :: "pykey \<Rightarrow> message \<Rightarrow> bool" where
  "blocked_1 uid txt = (uid \<noteq> KInt 1)"

definition env_blocked :: "response \<Rightarrow> env" where
  "env_blocked r = \<lparr>binance = r, deliver = blocked_1, disk_ok = True\<rparr>"


text \<open>Chat 7 subscribes while the ticker reads 0.0, then unsubscribes.\<close>

definition sub_at_zero :: state where
  "sub_at_zero = snd (cb_btn (env_ok (Ticker 0)) 7 7 ''sub'' fresh)"

definition unsub_at_zero :: state where
  "unsub_at_zero = snd (cb_btn (env_ok (Ticker 0)) 7 7 ''unsub'' sub_at_zero)"

text \<open>Chat 123 subscribes at 50000, and the process restarts.\<close>

definition sub_123 :: state where
  "sub_123 = snd (cb_btn (env_ok (Ticker 50000)) 123 123 ''sub'' fresh)"

text \<open>A start on files that hold one subscriber and the interval 0.\<close>

definition zero_store :: state where
  "zero_store = main (Doc [(''1'', 50000)]) (Doc [(''interval'', 0)])"

text \<open>A session: subscribe, a refused text, a quick choice, a watcher pass, a restart.\<close>

definition session :: "(env \<times> event) list" where
  "session = [(env_ok (Ticker 50000), Button 1 1 ''sub''),
              (env_ok (Ticker 50000), Button 1 1 ''step_custom''),
              (env_ok (Ticker 50000), Text 1 1 ''0''),
              (env_ok (Ticker 50000), Button 1 1 ''step_500''),
              (env_ok (Ticker 50100), Tick),
              (env_ok (Ticker 50100), Restart)]"

text \<open>A start on a state file that lists chats 1 and 2, and a transport on which the
  chat with the reloaded key \<^verbatim>\<open>"1"\<close> is unreachable.\<close>

definition reloaded_two :: state where
  "reloaded_two = main (Doc [(''1'', 50000), (''2'', 49000)]) Absent"

definition blocked_str_1 :: "pykey \<Rightarrow> message \<Rightarrow> bool" where
  "blocked_str_1 uid txt = (uid \<noteq> KStr ''1'')"

definition env_blocked_str :: "response \<Rightarrow> env" where
  "env_blocked_str r = \<lparr>binance = r, deliver = blocked_str_1, disk_ok = True\<rparr>"

text \<open>Chat 1 has pressed the button that asks for a number.\<close>

definition asking :: state where
  "asking = snd (cb_btn (env_ok (Ticker 50000)) 1 1 ''step_custom'' fresh)"

section \<open>Verification\<close>

lemmas ex = always_delivers_def never_delivers_def env_ok_def env_mute_def fresh_def
  one_sub_def two_subs_def blocked_1_def DEFAULT_INT_def

subsection \<open>Dictionaries\<close>

lemma key_in_dict: "(k, v) \<in> set d \<Longrightarrow> k \<in> fst ` set d"
  by force

lemma dict_get_None_iff: "dict_get d k = None \<longleftrightarrow> k \<notin> fst ` set d"
  by (induction d) (auto split: if_splits)

lemma dict_get_Some_mem: "distinct (map fst d) \<Longrightarrow> (k, v) \<in> set d \<Longrightarrow> dict_get d k = Some v"
  by (induction d) (auto simp: key_in_dict)

lemma dict_get_set: "dict_get (dict_set k v d) k' = (if k' = k then Some v else dict_get d k')"
  by (induction d) auto

lemma keys_dict_set:
  "map fst (dict_set k v d) = (if k \<in> fst ` set d then map fst d else map fst d @ [k])"
  by (induction d) (auto simp: key_in_dict)

lemma distinct_dict_set: "distinct (map fst d) \<Longrightarrow> distinct (map fst (dict_set k v d))"
  by (simp add: keys_dict_set)

lemma set_dict_del: "set (dict_del k d) \<subseteq> set d"
  by (induction d) (auto split: if_splits)

lemma keys_dict_del: "fst ` set (dict_del k d) \<subseteq> fst ` set d"
  by (rule image_mono) (rule set_dict_del)

lemma distinct_dict_del: "distinct (map fst d) \<Longrightarrow> distinct (map fst (dict_del k d))"
proof (induction d)
  case Nil
  show ?case by simp
next
  case (Cons a d)
  from keys_dict_del[of k d] Cons show ?case
    by (cases a) auto
qed

lemma dict_get_del: "distinct (map fst d) \<Longrightarrow> dict_get (dict_del k d) k = None"
  by (induction d) (auto simp: dict_get_None_iff key_in_dict split: if_splits)

lemma dict_set_fresh: "k \<notin> fst ` set d \<Longrightarrow> dict_set k v d = d @ [(k, v)]"
  by (induction d) auto

subsection \<open>The price source\<close>

lemma get_price_failure:
  assumes "is_failure r"
  shows "fst (get_price r s) = None"
    and "fail_seq (snd (get_price r s)) = fail_seq s + 1"
    and "escalations (log (snd (get_price r s))) =
           escalations (log s) + (if FAIL_LIMIT \<le> fail_seq s + 1 then 1 else 0)"
    and "subs (snd (get_price r s)) = subs s"
  using assms
  by (cases r; simp add: is_failure_def get_price_def fail_tail_def escalations_def)+

lemma get_price_success:
  "get_price (Ticker p) s = (Some p, s\<lparr>fail_seq := 0, log := log s @ [LogPrice p]\<rparr>)"
  by (simp add: get_price_def)

lemma get_price_None_iff: "fst (get_price r s) = None \<longleftrightarrow> is_failure r"
  by (cases r) (simp_all add: is_failure_def get_price_def fail_tail_def)

lemma get_price_frame:
  "subs (snd (get_price r s)) = subs s"
  "interval (snd (get_price r s)) = interval s"
  "state_file (snd (get_price r s)) = state_file s"
  "collab_file (snd (get_price r s)) = collab_file s"
  "sent (snd (get_price r s)) = sent s"
  "awaiting (snd (get_price r s)) = awaiting s"
  by (cases r; simp add: get_price_def fail_tail_def)+

lemma fetches_failures:
  "list_all is_failure rs \<Longrightarrow>
     fail_seq (fetches rs s) = fail_seq s + length rs \<and>
     escalations (log (fetches rs s)) =
       escalations (log s) + ((fail_seq s + length rs) - 4 - (fail_seq s - 4))"
proof (induction rs arbitrary: s)
  case Nil
  show ?case by simp
next
  case (Cons r rs)
  from Cons.prems have r: "is_failure r" and rs: "list_all is_failure rs" by simp_all
  note step = get_price_failure(2,3)[OF r, of s]
  from Cons.IH[OF rs, of "snd (get_price r s)"] step
  show ?case by (auto simp: FAIL_LIMIT_def)
qed

text \<open>
  Claim C4, as the code has it. The test after a failed fetch is
  \<^verbatim>\<open>_fail_seq >= FAIL_LIMIT\<close>, so the entry "failure limit reached" is logged by every
  failed fetch that leaves the counter at five or more: \<open>n\<close> consecutive failures from a
  counter of zero log it \<open>n - 4\<close> times (never for up to four, once after five, twice
  after six). A successful fetch sets the counter to zero and logs no such entry. Every
  fetch returns, so polling goes on.
\<close>

theorem get_price_escalates_on_each_failure_from_the_fifth:
  assumes "list_all is_failure rs" and "fail_seq s = 0"
  shows "escalations (log (fetches rs s)) = escalations (log s) + (length rs - 4)
       \<and> fail_seq (fetches rs s) = length rs
       \<and> fail_seq (snd (get_price (Ticker p) (fetches rs s))) = 0
       \<and> escalations (log (snd (get_price (Ticker p) (fetches rs s)))) = escalations (log (fetches rs s))"
  using fetches_failures[OF assms(1), of s] assms(2)
  by (simp add: get_price_success escalations_def)

theorem get_price_escalates_on_each_failure_from_the_fifth_witness:
  "list_all is_failure (replicate 6 HttpFailure) \<and> fail_seq fresh = 0
   \<and> escalations (log (fetches (replicate 6 HttpFailure) fresh)) = 2
   \<and> fail_seq (fetches (replicate 6 HttpFailure) fresh) = 6
   \<and> fail_seq (snd (get_price (Ticker 50000) (fetches (replicate 6 HttpFailure) fresh))) = 0"
proof -
  have h1: "list_all is_failure (replicate 6 HttpFailure)"
    by (simp add: list_all_iff is_failure_def)
  have h2: "fail_seq fresh = 0"
    by (simp add: fresh_def)
  have h3: "escalations (log fresh) = 0"
    by (simp add: fresh_def escalations_def)
  from get_price_escalates_on_each_failure_from_the_fifth[OF h1 h2, of 50000] h1 h2 h3
  show ?thesis by simp
qed

text \<open>
  Claim C4 as stated (one entry per crossing of the limit) fails: the sixth consecutive
  failure logs the entry a second time.
\<close>

theorem sixth_failure_escalates_again:
  "escalations (log (fetches (replicate 5 HttpFailure) fresh)) = 1
   \<and> escalations (log (fetches (replicate 6 HttpFailure) fresh)) = 2"
  by (simp add: escalations_def fresh_def get_price_def fail_tail_def FAIL_LIMIT_def numeral_eq_Suc)

subsection \<open>The store\<close>

lemma write_state_frame:
  "subs (write_state e s) = subs s"
  "interval (write_state e s) = interval s"
  "sent (write_state e s) = sent s"
  "collab_file (write_state e s) = collab_file s"
  "fail_seq (write_state e s) = fail_seq s"
  "awaiting (write_state e s) = awaiting s"
  by (simp_all add: write_state_def write_json_def)

lemma write_state_log: "set (log s) \<subseteq> set (log (write_state e s))"
  by (auto simp: write_state_def write_json_def)

lemma write_state_file:
  "state_file (write_state e s) = (if disk_ok e then Doc (json_dumps (subs s)) else state_file s)"
  by (auto simp: write_state_def write_json_def)

lemma write_collab_frame:
  "subs (write_collab e s) = subs s"
  "interval (write_collab e s) = interval s"
  "sent (write_collab e s) = sent s"
  "state_file (write_collab e s) = state_file s"
  "awaiting (write_collab e s) = awaiting s"
  by (simp_all add: write_collab_def write_json_def)

lemma write_collab_log: "set (log s) \<subseteq> set (log (write_collab e s))"
  by (auto simp: write_collab_def write_json_def)

subsection \<open>The rounding\<close>

lemma ilog2_bounds: "0 < n \<Longrightarrow> 2 ^ ilog2 n \<le> n \<and> n < 2 ^ Suc (ilog2 n)"
proof (induction n rule: ilog2.induct)
  case (1 n)
  show ?case
  proof (cases "n < 2")
    case True
    with "1.prems" have "n = 1" by simp
    then show ?thesis by (simp add: ilog2.simps)
  next
    case False
    then have pos: "0 < n div 2" by simp
    from "1.IH"[OF False pos]
    have ih: "2 ^ ilog2 (n div 2) \<le> n div 2" "n div 2 < 2 ^ Suc (ilog2 (n div 2))" by simp_all
    have e: "ilog2 n = Suc (ilog2 (n div 2))" using False by (subst ilog2.simps) simp
    from ih(1) have "2 * 2 ^ ilog2 (n div 2) \<le> n" by linarith
    moreover from ih(2) have "n < 2 * 2 ^ Suc (ilog2 (n div 2))" by linarith
    ultimately show ?thesis by (simp add: e)
  qed
qed

lemma pow2_nat: "pow2 (int k) = 2 ^ k"
  by (simp add: pow2_def)

lemma pow2_neg: "pow2 (- int k) = 1 / 2 ^ k"
  by (cases k) (simp_all add: pow2_def nat_add_distrib)

lemma pow2_pos: "0 < pow2 k"
  by (simp add: pow2_def)

text \<open>\<open>expo\<close> is the binary exponent: a positive \<open>x\<close> lies in \<open>[2^e, 2^(e+1))\<close>.\<close>

lemma expo_bounds:
  assumes "0 < x"
  shows "pow2 (expo x) \<le> x \<and> x < pow2 (expo x + 1)"
proof (cases "1 \<le> x")
  case True
  let ?n = "nat \<lfloor>x\<rfloor>"
  from True have n: "0 < ?n" by simp
  from ilog2_bounds[OF n] have b: "2 ^ ilog2 ?n \<le> ?n" "?n < 2 ^ Suc (ilog2 ?n)" by simp_all
  have fl: "real ?n \<le> x" "x < real ?n + 1" using True by linarith+
  from b(1) have "(2::real) ^ ilog2 ?n \<le> real ?n"
    by (metis of_nat_le_iff of_nat_numeral of_nat_power)
  with fl(1) have lo: "2 ^ ilog2 ?n \<le> x" by linarith
  from b(2) have "?n + 1 \<le> 2 ^ Suc (ilog2 ?n)" by simp
  then have "real (?n + 1) \<le> 2 ^ Suc (ilog2 ?n)"
    by (metis of_nat_le_iff of_nat_numeral of_nat_power)
  with fl(2) have hi: "x < 2 ^ Suc (ilog2 ?n)" by simp
  have e: "expo x = int (ilog2 ?n)" using True by (simp add: expo_def)
  have "pow2 (expo x + 1) = 2 ^ Suc (ilog2 ?n)"
    unfolding e using pow2_nat[of "Suc (ilog2 ?n)"] by (simp add: add.commute)
  with lo hi e show ?thesis by (simp add: pow2_nat)
next
  case False
  with assms have x: "0 < x" "x < 1" by simp_all
  define y where "y = 1 / x"
  define m where "m = nat \<lceil>y\<rceil>"
  from x have y: "1 < y" by (simp add: y_def)
  then have m2: "2 \<le> m" unfolding m_def by linarith
  have ce: "real m - 1 < y" "y \<le> real m" using y unfolding m_def by linarith+
  define j where "j = ilog2 (m - 1)"
  from m2 have "\<not> m \<le> 1" by linarith
  then have k: "clog2 m = Suc j" by (simp only: clog2_def if_False j_def)
  have pos: "0 < m - 1" using m2 by linarith
  from ilog2_bounds[OF pos] have b: "2 ^ j \<le> m - 1" "m - 1 < 2 ^ Suc j"
    by (simp_all only: j_def)
  from b(2) m2 have "m \<le> 2 ^ Suc j" by linarith
  then have "real m \<le> real (2 ^ Suc j)" by (simp only: of_nat_le_iff)
  then have "real m \<le> 2 ^ Suc j" by simp
  with ce(2) have yhi: "y \<le> 2 ^ Suc j" by linarith
  from b(1) have "real (2 ^ j) \<le> real (m - 1)" by (simp only: of_nat_le_iff)
  then have "(2::real) ^ j \<le> real m - 1" using m2 by (simp add: of_nat_diff)
  with ce(1) have ylo: "2 ^ j < y" by linarith
  have e: "expo x = - int (Suc j)"
    using False k by (simp add: expo_def m_def y_def)
  have xy: "x = 1 / y" using x by (simp add: y_def)
  have ypos: "0 < y" using y by linarith
  have lo: "pow2 (expo x) \<le> x"
  proof -
    have "1 / 2 ^ Suc j \<le> 1 / y"
      using yhi ypos by (intro divide_left_mono) simp_all
    then have "1 / 2 ^ Suc j \<le> x" by (simp only: xy)
    then show ?thesis by (simp only: e pow2_neg)
  qed
  have hi: "x < pow2 (expo x + 1)"
  proof -
    have "expo x + 1 = - int j" by (simp add: e)
    then have p: "pow2 (expo x + 1) = 1 / 2 ^ j" by (simp only: pow2_neg)
    have "1 / y < 1 / 2 ^ j"
      using ylo ypos by (intro divide_strict_left_mono) simp_all
    then have "x < 1 / 2 ^ j" by (simp only: xy)
    then show ?thesis by (simp only: p)
  qed
  from lo hi show ?thesis by simp
qed

lemma round_half_even_near: "\<bar>of_int (round_half_even x) - x\<bar> \<le> 1 / 2"
proof -
  have "of_int \<lfloor>x\<rfloor> \<le> x" "x < of_int \<lfloor>x\<rfloor> + 1" by linarith+
  then show ?thesis
    by (auto simp: round_half_even_def Let_def abs_le_iff)
qed

text \<open>\<open>round53\<close> moves a number by at most half a unit in its last place.\<close>

lemma round53_error: "x \<noteq> 0 \<Longrightarrow> \<bar>round53 x - x\<bar> \<le> pow2 (expo \<bar>x\<bar> - 52) / 2"
proof -
  assume "x \<noteq> 0"
  define u where "u = pow2 (expo \<bar>x\<bar> - 52)"
  have u: "0 < u" by (simp add: u_def pow2_pos)
  have r: "round53 x = of_int (round_half_even (x / u)) * u"
    using \<open>x \<noteq> 0\<close> by (simp add: round53_def u_def Let_def)
  have "round53 x - x = (of_int (round_half_even (x / u)) - x / u) * u"
    using u by (simp add: r field_simps)
  then have "\<bar>round53 x - x\<bar> = \<bar>of_int (round_half_even (x / u)) - x / u\<bar> * u"
    using u by (simp add: abs_mult)
  also have "\<dots> \<le> (1 / 2) * u"
    using round_half_even_near[of "x / u"] u by (intro mult_right_mono) simp_all
  finally show ?thesis by (simp add: u_def)
qed

subsection \<open>Float subtraction and integer parsing on examples\<close>

lemmas float_defs = fsub_def round53_def expo_def ilog2.simps clog2_def pow2_def
  round_half_even_def Let_def

lemma fsub_200: "fsub 50200 50000 = Fin 200"
  by (simp add: float_defs)

lemma fsub_1200: "fsub 50200 49000 = Fin 1200"
  by (simp add: float_defs)

lemma fsub_same: "fsub p p = Fin 0"
  by (simp add: fsub_def round53_def pow2_def)

lemma just_below_eval: "just_below = 6899434089904865 / 137438953472"
  by (simp add: just_below_def float_defs)

lemma fsub_just_below: "fsub just_below 50000 = Fin (27486416304865 / 137438953472)"
  by (simp add: just_below_eval float_defs)

lemma prices_eval:
  "price_99903_7 = 6865329987990323 / 68719476736"
  "price_29903_7 = 8219866465881293 / 274877906944"
  by (simp_all add: price_99903_7_def price_29903_7_def float_defs)

lemma rounded_difference_reaches_step:
  "price_99903_7 - price_29903_7 < 70000 \<and> fsub price_99903_7 price_29903_7 = Fin 70000"
  by (simp add: prices_eval float_defs)

lemma py_int_examples:
  "py_int [CHR 0x1F, CHR ''6''] = None"
  "py_int [CHR 0xA0, CHR ''5''] = Some 5"
  "py_int [CHR 0x85, CHR ''-'', CHR ''1'', CHR ''_'', CHR ''0'', CHR '' ''] = Some (- 10)"
  "py_int ''+ 5'' = None"
  by (simp_all add: py_int_def to_ascii_def strip_def is_space_def int_unsigned_def is_digit_def
        digit_chars_def digit_val_def int_max_str_digits_def)

subsection \<open>The watcher\<close>

lemma alert_loop_frame:
  "interval (alert_loop e p step items s) = interval s
   \<and> state_file (alert_loop e p step items s) = state_file s
   \<and> collab_file (alert_loop e p step items s) = collab_file s
   \<and> fail_seq (alert_loop e p step items s) = fail_seq s
   \<and> awaiting (alert_loop e p step items s) = awaiting s"
  by (induction e p step items s rule: alert_loop.induct) (simp_all add: Let_def)

lemma alert_loop_sent:
  "sent (alert_loop e p step items s) =
     sent s @ map (\<lambda>(uid, last'). (uid, alert_text p step last', deliver e uid (alert_text p step last')))
                  (filter (\<lambda>(uid, last'). due p step last') items)"
  by (induction e p step items s rule: alert_loop.induct) (simp_all add: due_def alert_text_def Let_def)

text \<open>What a pass adds to the log: an entry for each due recipient whose send raised, when
  its key is an integer.\<close>

lemma alert_loop_log:
  "log (alert_loop e p step items s) =
     log s @ concat (map (\<lambda>(uid, last').
                if due p step last' \<and> \<not> deliver e uid (alert_text p step last')
                then log_chat LogSendError uid else []) items)"
  by (induction e p step items s rule: alert_loop.induct) (simp_all add: due_def alert_text_def Let_def)

lemma alert_loop_logs_int_key:
  assumes "(KInt i, last') \<in> set items" and "due p step last'"
    and "\<not> deliver e (KInt i) (alert_text p step last')"
  shows "LogSendError i \<in> set (log (alert_loop e p step items s))"
proof -
  let ?f = "\<lambda>(uid, last'). if due p step last' \<and> \<not> deliver e uid (alert_text p step last')
                then log_chat LogSendError uid else []"
  from assms have "LogSendError i \<in> set (?f (KInt i, last'))" by simp
  with assms(1) have "LogSendError i \<in> set (concat (map ?f items))"
    by (auto simp del: split_paired_Ex intro!: bexI[of _ "(KInt i, last')"])
  then show ?thesis by (simp add: alert_loop_log)
qed

lemma alert_loop_subs:
  "distinct (map fst items) \<Longrightarrow>
   dict_get (subs (alert_loop e p step items s)) k =
     (case dict_get items k of
        Some last' \<Rightarrow> if due p step last' \<and> deliver e k (alert_text p step last') then Some p
                       else dict_get (subs s) k
      | None \<Rightarrow> dict_get (subs s) k)"
proof (induction e p step items s rule: alert_loop.induct)
  case (1 e p step s)
  show ?case by simp
next
  case (2 e p step u l items s)
  from "2.prems" have d: "distinct (map fst items)" and nin: "u \<notin> fst ` set items" by auto
  from nin have none: "dict_get items u = None" by (simp add: dict_get_None_iff)
  show ?case
    using "2.IH"(1)[OF _ refl refl _ d] "2.IH"(2)[OF _ refl refl _ d] "2.IH"(3)[OF _ d] none
    by (cases "k = u") (auto simp: Let_def due_def alert_text_def dict_get_set split: option.splits)
qed

lemma watcher_cycle_tick:
  "binance e = Ticker p \<Longrightarrow>
   watcher_cycle e s =
     write_state e (alert_loop e p (interval s) (subs s) (s\<lparr>fail_seq := 0, log := log s @ [LogPrice p]\<rparr>))"
  by (simp add: watcher_cycle_def get_price_def)

lemma watcher_cycle_empty:
  "fst (get_price (binance e) s) = None \<Longrightarrow> watcher_cycle e s = snd (get_price (binance e) s)"
  by (simp add: watcher_cycle_def split_beta)

lemma cycle_sent_tick:
  "binance e = Ticker p \<Longrightarrow>
   cycle_sent e s =
     map (\<lambda>(uid, last'). (uid, alert_text p (interval s) last', deliver e uid (alert_text p (interval s) last')))
         (filter (\<lambda>(uid, last'). due p (interval s) last') (subs s))"
  by (simp add: cycle_sent_def watcher_cycle_tick write_state_frame alert_loop_sent)

lemma alerted_iff:
  assumes "binance e = Ticker p" "distinct (map fst (subs s))" "(uid, last') \<in> set (subs s)"
  shows "alerted e s uid \<longleftrightarrow> due p (interval s) last'"
proof
  assume "alerted e s uid"
  then obtain l where l: "(uid, l) \<in> set (subs s)" "due p (interval s) l"
    by (auto simp: alerted_def cycle_sent_tick[OF assms(1)])
  from dict_get_Some_mem[OF assms(2) l(1)] dict_get_Some_mem[OF assms(2,3)] have "l = last'"
    by simp
  with l(2) show "due p (interval s) last'" by simp
next
  assume "due p (interval s) last'"
  with assms(3) have "(uid, last') \<in> set (filter (\<lambda>(uid, last'). due p (interval s) last') (subs s))"
    by simp
  then have "uid \<in> fst ` set (filter (\<lambda>(uid, last'). due p (interval s) last') (subs s))"
    by (rule key_in_dict)
  then show "alerted e s uid"
    by (simp add: alerted_def cycle_sent_tick[OF assms(1)] image_image split_beta)
qed

lemma baseline_after_cycle:
  assumes "binance e = Ticker p" "distinct (map fst (subs s))" "(uid, last') \<in> set (subs s)"
  shows "dict_get (subs (watcher_cycle e s)) uid =
           Some (if due p (interval s) last' \<and> deliver e uid (alert_text p (interval s) last')
                 then p else last')"
  using assms
  by (simp add: watcher_cycle_tick write_state_frame alert_loop_subs dict_get_Some_mem)

lemma due_exact:
  assumes "round53 (p - last') = p - last'" and "\<bar>p - last'\<bar> < pow2 1024"
  shows "due p step last' \<longleftrightarrow> \<bar>p - last'\<bar> \<ge> real_of_int step"
proof -
  from assms have "fsub p last' = Fin (p - last')"
    by (auto simp: fsub_def Let_def)
  then show ?thesis by (simp add: due_def)
qed

text \<open>
  The rounding matters at the boundary: the doubles for 99903.7 and 29903.7 differ by
  less than 70000, their float difference is 70000.0, and a step of 70000 is reached.
\<close>

lemma rounded_difference_is_due:
  "price_99903_7 - price_29903_7 < 70000 \<and> due price_99903_7 70000 price_29903_7"
  using rounded_difference_reaches_step by (simp add: due_def)

lemma scenario_due:
  "due 50200 200 50000" "\<not> due just_below 200 50000"
  by (simp_all add: due_def fsub_200 fsub_just_below)

text \<open>
  Claim C1, as the code has it. In a watcher pass that fetched price \<open>p\<close>, a subscriber
  with baseline \<open>last\<close> ends the pass with baseline \<open>p\<close> exactly when it was due
  (\<^verbatim>\<open>abs(p - last) >= step\<close>, as Python evaluates it) and its alert was delivered; when
  it was not due, or the send raised \<^verbatim>\<open>TelegramError\<close>, the baseline is still \<open>last\<close>.
\<close>

theorem watcher_baseline_moves_only_on_delivery:
  assumes "binance e = Ticker p" and "distinct (map fst (subs s))" and "(uid, last') \<in> set (subs s)"
  shows "dict_get (subs (watcher_cycle e s)) uid =
           Some (if due p (interval s) last' \<and> deliver e uid (alert_text p (interval s) last')
                 then p else last')"
  using assms by (rule baseline_after_cycle)

theorem watcher_baseline_moves_only_on_delivery_witness:
  "binance (env_ok (Ticker 50200)) = Ticker 50200
   \<and> distinct (map fst (subs one_sub))
   \<and> (KInt 1, 50000) \<in> set (subs one_sub)
   \<and> dict_get (subs (watcher_cycle (env_ok (Ticker 50200)) one_sub)) (KInt 1) = Some 50200"
proof -
  have h1: "binance (env_ok (Ticker 50200)) = Ticker 50200" by (simp add: ex)
  have h2: "distinct (map fst (subs one_sub))" by (simp add: ex)
  have h3: "(KInt 1, 50000) \<in> set (subs one_sub)" by (simp add: ex)
  have d: "due 50200 (interval one_sub) 50000" by (simp add: scenario_due ex)
  have ok: "deliver (env_ok (Ticker 50200)) (KInt 1) (alert_text 50200 (interval one_sub) 50000)"
    by (simp add: ex)
  from watcher_baseline_moves_only_on_delivery[OF h1 h2 h3] d ok h1 h2 h3
  show ?thesis by simp
qed

text \<open>
  Claim C1 as stated (the baseline moves on the attempt, delivered or not) fails: one
  subscriber at 50000, step 200, price 50200, a send that raises. The subscriber is due,
  the send is attempted, and the baseline is still 50000 after the pass.
\<close>

theorem failed_send_keeps_baseline:
  "due 50200 (interval one_sub) 50000
   \<and> alerted (env_mute (Ticker 50200)) one_sub (KInt 1)
   \<and> dict_get (subs (watcher_cycle (env_mute (Ticker 50200)) one_sub)) (KInt 1) = Some 50000"
proof -
  have h1: "binance (env_mute (Ticker 50200)) = Ticker 50200" by (simp add: ex)
  have h2: "distinct (map fst (subs one_sub))" by (simp add: ex)
  have h3: "(KInt 1, 50000) \<in> set (subs one_sub)" by (simp add: ex)
  have d: "due 50200 (interval one_sub) 50000" by (simp add: scenario_due ex)
  have no: "\<not> deliver (env_mute (Ticker 50200)) (KInt 1) (alert_text 50200 (interval one_sub) 50000)"
    by (simp add: ex)
  from alerted_iff[OF h1 h2 h3] baseline_after_cycle[OF h1 h2 h3] d no
  show ?thesis by simp
qed

text \<open>
  Claim C2, as the code has it. For a fetched price \<open>p\<close>, an entry of the baseline map
  with baseline \<open>last\<close> and a threshold \<open>T > 0\<close>, the watcher pass sends that subscriber
  an alert if and only if \<^verbatim>\<open>abs(p - last) >= T\<close> as Python evaluates it (the float
  difference against the integer, boundary included); an entry with \<open>last = p\<close> is not
  alerted; and the baseline after the pass is \<open>p\<close> when the alert was sent and
  delivered, \<open>last\<close> otherwise. The witness is the scenario of the claim: threshold 200 and
  baseline 50000, no alert at \<^verbatim>\<open>float("50199.99")\<close>, an alert at 50200 and, that alert
  being delivered, the new baseline 50200.
\<close>

theorem watcher_alerts_iff_delta_reaches_threshold:
  assumes "binance e = Ticker p" and "interval s = T" and "0 < T"
    and "distinct (map fst (subs s))" and "(uid, last') \<in> set (subs s)"
  shows "(alerted e s uid \<longleftrightarrow> fabs_ge (fsub p last') T)
       \<and> (last' = p \<longrightarrow> \<not> alerted e s uid)
       \<and> dict_get (subs (watcher_cycle e s)) uid =
           Some (if alerted e s uid \<and> deliver e uid (alert_text p T last') then p else last')"
proof -
  have a: "alerted e s uid \<longleftrightarrow> fabs_ge (fsub p last') T"
    using alerted_iff[OF assms(1,4,5)] assms(2) by (simp add: due_def)
  have b: "last' = p \<Longrightarrow> \<not> alerted e s uid"
    using a assms(3) by (simp add: fsub_same)
  have c: "dict_get (subs (watcher_cycle e s)) uid =
           Some (if alerted e s uid \<and> deliver e uid (alert_text p T last') then p else last')"
    using baseline_after_cycle[OF assms(1,4,5)] alerted_iff[OF assms(1,4,5)] assms(2) by simp
  from a b c show ?thesis by simp
qed

theorem watcher_alerts_iff_delta_reaches_threshold_witness:
  "binance (env_ok (Ticker just_below)) = Ticker just_below
   \<and> binance (env_ok (Ticker 50200)) = Ticker 50200
   \<and> interval one_sub = 200 \<and> (0::int) < 200
   \<and> distinct (map fst (subs one_sub)) \<and> (KInt 1, 50000) \<in> set (subs one_sub)
   \<and> \<not> alerted (env_ok (Ticker just_below)) one_sub (KInt 1)
   \<and> dict_get (subs (watcher_cycle (env_ok (Ticker just_below)) one_sub)) (KInt 1) = Some 50000
   \<and> alerted (env_ok (Ticker 50200)) one_sub (KInt 1)
   \<and> dict_get (subs (watcher_cycle (env_ok (Ticker 50200)) one_sub)) (KInt 1) = Some 50200"
proof -
  have h1: "binance (env_ok (Ticker just_below)) = Ticker just_below" by (simp add: ex)
  have h1': "binance (env_ok (Ticker 50200)) = Ticker 50200" by (simp add: ex)
  have h2: "interval one_sub = 200" by (simp add: ex)
  have h3: "(0::int) < 200" by simp
  have h4: "distinct (map fst (subs one_sub))" by (simp add: ex)
  have h5: "(KInt 1, 50000) \<in> set (subs one_sub)" by (simp add: ex)
  have ok: "deliver (env_ok (Ticker 50200)) (KInt 1) (alert_text 50200 200 50000)"
    by (simp add: ex)
  have nd: "\<not> fabs_ge (fsub just_below 50000) 200"
    using scenario_due(2) by (simp add: due_def)
  have yd: "fabs_ge (fsub 50200 50000) 200"
    using scenario_due(1) by (simp add: due_def)
  from watcher_alerts_iff_delta_reaches_threshold[OF h1 h2 h3 h4 h5] nd
  have lo: "\<not> alerted (env_ok (Ticker just_below)) one_sub (KInt 1)
            \<and> dict_get (subs (watcher_cycle (env_ok (Ticker just_below)) one_sub)) (KInt 1) = Some 50000"
    by simp
  from watcher_alerts_iff_delta_reaches_threshold[OF h1' h2 h3 h4 h5] ok yd
  have hi: "alerted (env_ok (Ticker 50200)) one_sub (KInt 1)
            \<and> dict_get (subs (watcher_cycle (env_ok (Ticker 50200)) one_sub)) (KInt 1) = Some 50200"
    by simp
  from h1 h1' h2 h3 h4 h5 lo hi show ?thesis by simp
qed

text \<open>
  Claim C2 as stated fails in its last part: with threshold 200 and baseline 50000 the
  price 50200 produces an alert, but when the send to that chat raises, the baseline
  does not become 50200.
\<close>

theorem scenario_alert_undelivered_keeps_baseline:
  "interval one_sub = 200
   \<and> subs one_sub = [(KInt 1, 50000)]
   \<and> alerted (env_blocked (Ticker 50200)) one_sub (KInt 1)
   \<and> dict_get (subs (watcher_cycle (env_blocked (Ticker 50200)) one_sub)) (KInt 1) = Some 50000"
proof -
  have h1: "binance (env_blocked (Ticker 50200)) = Ticker 50200" by (simp add: env_blocked_def)
  have h2: "distinct (map fst (subs one_sub))" by (simp add: ex)
  have h3: "(KInt 1, 50000) \<in> set (subs one_sub)" by (simp add: ex)
  have i: "interval one_sub = 200" "subs one_sub = [(KInt 1, 50000)]" by (simp_all add: ex)
  have no: "\<not> deliver (env_blocked (Ticker 50200)) (KInt 1) (alert_text 50200 200 50000)"
    by (simp add: env_blocked_def ex)
  from alerted_iff[OF h1 h2 h3] baseline_after_cycle[OF h1 h2 h3] scenario_due(1) no i
  show ?thesis by simp
qed

text \<open>
  Claim C9. When the fetch of a watcher pass returns \<^verbatim>\<open>None\<close>, the pass sends nothing,
  and leaves the baselines, the threshold and both files as they were.
\<close>

theorem empty_fetch_skips_the_cycle:
  assumes "fst (get_price (binance e) s) = None"
  shows "cycle_sent e s = []
       \<and> sent (watcher_cycle e s) = sent s
       \<and> subs (watcher_cycle e s) = subs s
       \<and> state_file (watcher_cycle e s) = state_file s
       \<and> collab_file (watcher_cycle e s) = collab_file s
       \<and> interval (watcher_cycle e s) = interval s"
  using assms by (simp add: watcher_cycle_empty cycle_sent_def get_price_frame)

theorem empty_fetch_skips_the_cycle_witness:
  "fst (get_price (binance (env_ok HttpFailure)) two_subs) = None
   \<and> cycle_sent (env_ok HttpFailure) two_subs = []
   \<and> subs (watcher_cycle (env_ok HttpFailure) two_subs) = [(KInt 1, 50000), (KInt 2, 49000)]
   \<and> state_file (watcher_cycle (env_ok HttpFailure) two_subs) = Absent"
proof -
  have h: "fst (get_price (binance (env_ok HttpFailure)) two_subs) = None"
    by (simp add: get_price_None_iff is_failure_def ex)
  from empty_fetch_skips_the_cycle[OF h] h show ?thesis by (simp add: ex)
qed

subsection \<open>Subscribing and price queries\<close>

text \<open>
  Claim C6. When the fetch made by the Subscribe button returns \<^verbatim>\<open>None\<close>, the handler
  answers "price unavailable" and changes neither the baselines (no entry appears for the
  caller), nor the threshold, nor either file, and sends nothing.
\<close>

theorem subscribe_without_price_changes_nothing:
  assumes "fst (get_price (binance e) s) = None"
  shows "fst (cb_btn e user uid ''sub'' s) = Some (PriceUnavailableRetry, NoKbd)
       \<and> subs (snd (cb_btn e user uid ''sub'' s)) = subs s
       \<and> dict_get (subs (snd (cb_btn e user uid ''sub'' s))) (KInt uid) = dict_get (subs s) (KInt uid)
       \<and> state_file (snd (cb_btn e user uid ''sub'' s)) = state_file s
       \<and> collab_file (snd (cb_btn e user uid ''sub'' s)) = collab_file s
       \<and> interval (snd (cb_btn e user uid ''sub'' s)) = interval s
       \<and> sent (snd (cb_btn e user uid ''sub'' s)) = sent s"
proof -
  from assms have "cb_btn e user uid ''sub'' s =
      (Some (PriceUnavailableRetry, NoKbd), snd (get_price (binance e) s))"
    by (simp add: cb_btn_def split_beta)
  then show ?thesis by (simp add: get_price_frame)
qed

theorem subscribe_without_price_changes_nothing_witness:
  "fst (get_price (binance (env_ok BadPayload)) one_sub) = None
   \<and> fst (cb_btn (env_ok BadPayload) 2 2 ''sub'' one_sub) = Some (PriceUnavailableRetry, NoKbd)
   \<and> subs (snd (cb_btn (env_ok BadPayload) 2 2 ''sub'' one_sub)) = [(KInt 1, 50000)]
   \<and> dict_get (subs (snd (cb_btn (env_ok BadPayload) 2 2 ''sub'' one_sub))) (KInt 2) = None
   \<and> state_file (snd (cb_btn (env_ok BadPayload) 2 2 ''sub'' one_sub)) = Absent"
proof -
  have h: "fst (get_price (binance (env_ok BadPayload)) one_sub) = None"
    by (simp add: get_price_None_iff is_failure_def ex)
  from subscribe_without_price_changes_nothing[OF h, of 2 2] h show ?thesis by (simp add: ex)
qed

text \<open>
  Claim C10. \<^verbatim>\<open>/price\<close> and the Price button test the truthiness of the fetched value:
  a fetch that succeeds with 0.0 gets the reply "price unavailable", the reply of a failed
  fetch; any other fetched price is shown.
\<close>

theorem zero_price_is_reported_unavailable:
  "fst (cmd_price (e\<lparr>binance := Ticker 0\<rparr>) s) = (PriceUnavailable, NoKbd)
   \<and> fst (cmd_price (e\<lparr>binance := HttpFailure\<rparr>) s) = (PriceUnavailable, NoKbd)
   \<and> fst (cmd_price (e\<lparr>binance := BadPayload\<rparr>) s) = (PriceUnavailable, NoKbd)
   \<and> fst (cb_btn (e\<lparr>binance := Ticker 0\<rparr>) user uid ''price'' s) = Some (PriceUnavailable, NoKbd)
   \<and> fst (cb_btn (e\<lparr>binance := HttpFailure\<rparr>) user uid ''price'' s) = Some (PriceUnavailable, NoKbd)
   \<and> fst (cb_btn (e\<lparr>binance := BadPayload\<rparr>) user uid ''price'' s) = Some (PriceUnavailable, NoKbd)
   \<and> fst (cmd_price (e\<lparr>binance := Ticker p\<rparr>) s) = (if p = 0 then PriceUnavailable else PriceIs p, NoKbd)
   \<and> fst (cb_btn (e\<lparr>binance := Ticker p\<rparr>) user uid ''price'' s) =
        Some (if p = 0 then PriceUnavailable else PriceIs p, NoKbd)
   \<and> fst (get_price (Ticker 0) s) = Some 0"
  by (simp add: cmd_price_def cb_btn_def get_price_def fail_tail_def price_reply_def truthy_opt_def
        truthy_def)

subsection \<open>The broadcast\<close>

lemma notify_loop_frame:
  "subs (notify_loop e m by_uid nc uids s) = subs s
   \<and> interval (notify_loop e m by_uid nc uids s) = interval s
   \<and> state_file (notify_loop e m by_uid nc uids s) = state_file s
   \<and> collab_file (notify_loop e m by_uid nc uids s) = collab_file s
   \<and> awaiting (notify_loop e m by_uid nc uids s) = awaiting s"
  by (induction e m by_uid nc uids s rule: notify_loop.induct) simp_all

lemma notify_loop_sent:
  "sent (notify_loop e m by_uid nc uids s) =
     sent s @ map (\<lambda>uid. (uid, m, deliver e uid m))
                  (filter (\<lambda>uid. \<not> (uid = KInt by_uid \<and> \<not> nc)) uids)"
  by (induction e m by_uid nc uids s rule: notify_loop.induct) simp_all

lemma notify_loop_log:
  "log (notify_loop e m by_uid nc uids s) =
     log s @ concat (map (\<lambda>uid. if \<not> (uid = KInt by_uid \<and> \<not> nc) \<and> \<not> deliver e uid m
                                then log_chat LogNotifyFailed uid else []) uids)"
  by (induction e m by_uid nc uids s rule: notify_loop.induct) simp_all

lemma change_interval_frame:
  "subs (snd (change_interval e val by_uid nc s)) = subs s"
  "interval (snd (change_interval e val by_uid nc s)) = val"
  "state_file (snd (change_interval e val by_uid nc s)) = state_file s"
  "awaiting (snd (change_interval e val by_uid nc s)) = awaiting s"
  "fst (change_interval e val by_uid nc s) = IntervalChanged (interval s) val"
  by (simp_all add: change_interval_def Let_def notify_loop_frame write_collab_frame)

lemma change_interval_sent:
  "sent (snd (change_interval e val by_uid nc s)) =
     sent s @ map (\<lambda>uid. (uid, IntervalChanged (interval s) val,
                           deliver e uid (IntervalChanged (interval s) val)))
                  (filter (\<lambda>uid. \<not> (uid = KInt by_uid \<and> \<not> nc)) (map fst (subs s)))"
  by (simp add: change_interval_def Let_def notify_loop_sent write_collab_frame)

lemma in_concat_map: "x \<in> set xs \<Longrightarrow> y \<in> set (f x) \<Longrightarrow> y \<in> set (concat (map f xs))"
  by auto

lemma change_interval_logs_int_key:
  assumes "KInt i \<in> set (map fst (subs s))" and "\<not> (i = by_uid \<and> \<not> nc)"
    and "\<not> deliver e (KInt i) (IntervalChanged (interval s) val)"
  shows "LogNotifyFailed i \<in> set (log (snd (change_interval e val by_uid nc s)))"
proof -
  let ?f = "\<lambda>uid. if \<not> (uid = KInt by_uid \<and> \<not> nc)
                        \<and> \<not> deliver e uid (IntervalChanged (interval s) val)
                     then log_chat LogNotifyFailed uid else []"
  from assms(2,3) have "LogNotifyFailed i \<in> set (?f (KInt i))" by simp
  from in_concat_map[OF assms(1), of _ ?f, OF this]
  have "LogNotifyFailed i \<in> set (concat (map ?f (map fst (subs s))))" .
  then show ?thesis
    by (simp add: change_interval_def Let_def notify_loop_log write_collab_frame)
qed

text \<open>
  A send that raises stops neither loop. In a watcher pass that fetched a price the
  recipients handed to \<^verbatim>\<open>send_message\<close> are all the due subscribers, in order, whatever
  the outcome of each send, and a due subscriber whose send is delivered gets the new
  baseline. In \<^verbatim>\<open>change_interval\<close> the recipients are all subscribers but the initiator.
  A failed send to an integer key is logged.
\<close>

lemma sends_do_not_depend_on_outcomes:
  assumes "binance e = Ticker p" and "distinct (map fst (subs s))"
  shows "map fst (cycle_sent e s) = map fst (filter (\<lambda>(uid, last'). due p (interval s) last') (subs s))"
    and "(uid, last') \<in> set (subs s) \<Longrightarrow> due p (interval s) last'
           \<Longrightarrow> deliver e uid (alert_text p (interval s) last')
           \<Longrightarrow> dict_get (subs (watcher_cycle e s)) uid = Some p"
    and "(KInt i, last') \<in> set (subs s) \<Longrightarrow> due p (interval s) last'
           \<Longrightarrow> \<not> deliver e (KInt i) (alert_text p (interval s) last')
           \<Longrightarrow> LogSendError i \<in> set (log (watcher_cycle e s))"
    and "map fst (drop (length (sent s)) (sent (snd (change_interval e val by_uid False s)))) =
            filter (\<lambda>uid. uid \<noteq> KInt by_uid) (map fst (subs s))"
proof -
  show "map fst (cycle_sent e s) =
        map fst (filter (\<lambda>(uid, last'). due p (interval s) last') (subs s))"
    by (simp add: cycle_sent_tick[OF assms(1)] split_beta)
  show "dict_get (subs (watcher_cycle e s)) uid = Some p"
    if "(uid, last') \<in> set (subs s)" "due p (interval s) last'"
       "deliver e uid (alert_text p (interval s) last')"
    using baseline_after_cycle[OF assms that(1)] that(2,3) by simp
  show "LogSendError i \<in> set (log (watcher_cycle e s))"
    if "(KInt i, last') \<in> set (subs s)" "due p (interval s) last'"
       "\<not> deliver e (KInt i) (alert_text p (interval s) last')"
  proof -
    from alert_loop_logs_int_key[OF that]
    have "LogSendError i \<in> set (log (alert_loop e p (interval s) (subs s)
             (s\<lparr>fail_seq := 0, log := log s @ [LogPrice p]\<rparr>)))" .
    with write_state_log show ?thesis
      unfolding watcher_cycle_tick[OF assms(1)] by blast
  qed
  show "map fst (drop (length (sent s)) (sent (snd (change_interval e val by_uid False s)))) =
            filter (\<lambda>uid. uid \<noteq> KInt by_uid) (map fst (subs s))"
    by (simp add: change_interval_sent comp_def)
qed

lemma reloaded_two_eval:
  "subs reloaded_two = [(KStr ''1'', 50000), (KStr ''2'', 49000)]"
  "interval reloaded_two = 200" "log reloaded_two = []" "sent reloaded_two = []"
  by (simp_all add: reloaded_two_def main_def read_json_def json_loads_def DEFAULT_INT_def)

text \<open>
  Claim C8 on reloaded keys. After a restart the keys of the baseline map are strings.
  In a watcher pass at 50200 the send to \<^verbatim>\<open>"1"\<close> raises: the send to \<^verbatim>\<open>"2"\<close> is
  still made and its baseline moves, so the failure is isolated, but the log holds no
  entry for the failed send, only the fetched price. The same in \<^verbatim>\<open>change_interval\<close>:
  both sends are made and the log holds only the change of the interval.
\<close>

theorem string_key_send_failure_is_not_logged:
  "subs reloaded_two = [(KStr ''1'', 50000), (KStr ''2'', 49000)]
   \<and> cycle_sent (env_blocked_str (Ticker 50200)) reloaded_two =
       [(KStr ''1'', Alert True 50200 (Fin 200) 200, False),
        (KStr ''2'', Alert True 50200 (Fin 1200) 200, True)]
   \<and> subs (watcher_cycle (env_blocked_str (Ticker 50200)) reloaded_two) =
       [(KStr ''1'', 50000), (KStr ''2'', 50200)]
   \<and> log (watcher_cycle (env_blocked_str (Ticker 50200)) reloaded_two) = [LogPrice 50200]
   \<and> sent (snd (change_interval (env_blocked_str (Ticker 50200)) 500 3 False reloaded_two)) =
       [(KStr ''1'', IntervalChanged 200 500, False), (KStr ''2'', IntervalChanged 200 500, True)]
   \<and> log (snd (change_interval (env_blocked_str (Ticker 50200)) 500 3 False reloaded_two)) =
       [LogInterval 200 500 3]"
proof -
  have t: "binance (env_blocked_str (Ticker 50200)) = Ticker 50200"
    by (simp add: env_blocked_str_def)
  have d: "deliver (env_blocked_str (Ticker 50200)) = blocked_str_1" "disk_ok (env_blocked_str (Ticker 50200))"
    by (simp_all add: env_blocked_str_def)
  have w: "cycle_sent (env_blocked_str (Ticker 50200)) reloaded_two =
       [(KStr ''1'', Alert True 50200 (Fin 200) 200, False),
        (KStr ''2'', Alert True 50200 (Fin 1200) 200, True)]"
    by (simp add: cycle_sent_tick[OF t] reloaded_two_eval due_def alert_text_def fsub_200 fsub_1200
          d blocked_str_1_def)
  have wl: "log (watcher_cycle (env_blocked_str (Ticker 50200)) reloaded_two) = [LogPrice 50200]"
    by (simp add: watcher_cycle_tick[OF t] write_state_def write_json_def d alert_loop_log
          reloaded_two_eval due_def alert_text_def fsub_200 fsub_1200 blocked_str_1_def)
  have ws: "subs (watcher_cycle (env_blocked_str (Ticker 50200)) reloaded_two) =
       [(KStr ''1'', 50000), (KStr ''2'', 50200)]"
    by (simp add: watcher_cycle_tick[OF t] write_state_frame reloaded_two_eval fsub_200 fsub_1200
          d blocked_str_1_def)
  have c: "sent (snd (change_interval (env_blocked_str (Ticker 50200)) 500 3 False reloaded_two)) =
       [(KStr ''1'', IntervalChanged 200 500, False), (KStr ''2'', IntervalChanged 200 500, True)]"
    by (simp add: change_interval_sent reloaded_two_eval d blocked_str_1_def)
  have cl: "log (snd (change_interval (env_blocked_str (Ticker 50200)) 500 3 False reloaded_two)) =
       [LogInterval 200 500 3]"
    by (simp add: change_interval_def Let_def notify_loop_log write_collab_def write_json_def
          reloaded_two_eval d blocked_str_1_def)
  from reloaded_two_eval(1) w ws wl c cl show ?thesis by simp
qed

subsection \<open>Write-through\<close>

lemma main_fields:
  "subs (main sf cf) = fst (read_json STATE_FILE sf [])"
  "interval (main sf cf) =
     (case dict_get (fst (read_json COLLAB_FILE cf [(KStr ''interval'', DEFAULT_INT)])) (KStr ''interval'')
      of Some n \<Rightarrow> n | None \<Rightarrow> DEFAULT_INT)"
  "state_file (main sf cf) = sf"
  "collab_file (main sf cf) = cf"
  by (simp_all add: main_def split_beta)

lemma str_int_7: "str_int 7 = ''7''"
  by (simp add: str_int_def str_nat.simps digit_chars_def)

lemma str_int_123: "str_int 123 = ''123''"
  by (simp add: str_int_def str_nat.simps digit_chars_def)

lemma sub_at_zero_eval:
  "subs sub_at_zero = [(KInt 7, 0)]" "state_file sub_at_zero = Doc [(''7'', 0)]"
  by (simp_all add: sub_at_zero_def cb_btn_def get_price_def write_state_def write_json_def
        json_dumps_def str_int_7 ex)

lemma subscribe_writes_through:
  assumes "binance e = Ticker p" and "disk_ok e"
  shows "subs (snd (cb_btn e user uid ''sub'' s)) = dict_set (KInt uid) p (subs s)
       \<and> state_file (snd (cb_btn e user uid ''sub'' s)) =
           Doc (json_dumps (subs (snd (cb_btn e user uid ''sub'' s))))"
  using assms
  by (simp add: cb_btn_def get_price_def write_state_def write_json_def)

lemma unsubscribe_writes_through:
  assumes "dict_get (subs s) (KInt uid) = Some v" and "v \<noteq> 0" and "disk_ok e"
  shows "subs (snd (cb_btn e user uid ''unsub'' s)) = dict_del (KInt uid) (subs s)
       \<and> state_file (snd (cb_btn e user uid ''unsub'' s)) =
           Doc (json_dumps (subs (snd (cb_btn e user uid ''unsub'' s))))"
  using assms
  by (simp add: cb_btn_def dict_pop_def truthy_opt_def truthy_def write_state_def write_json_def)

lemma unsubscribe_zero_baseline_skips_write:
  assumes "dict_get (subs s) (KInt uid) = Some 0"
  shows "subs (snd (cb_btn e user uid ''unsub'' s)) = dict_del (KInt uid) (subs s)
       \<and> state_file (snd (cb_btn e user uid ''unsub'' s)) = state_file s"
  using assms
  by (simp add: cb_btn_def dict_pop_def truthy_opt_def truthy_def)

text \<open>
  Claim C5 at a baseline of 0.0. The Unsubscribe branch tests the truthiness of
  \<^verbatim>\<open>_subs.pop(uid, None)\<close>: the popped value 0.0 is falsy, so the entry leaves the
  dictionary and \<^verbatim>\<open>write_json\<close> is not called. Here chat 7 subscribed while the ticker
  read 0.0 and then unsubscribes: the dictionary is empty, the file still lists the chat,
  and a restart brings the subscription back.
\<close>

theorem unsubscribe_at_zero_baseline_is_not_persisted:
  "subs sub_at_zero = [(KInt 7, 0)]
   \<and> state_file sub_at_zero = Doc [(''7'', 0)]
   \<and> fst (cb_btn (env_ok (Ticker 0)) 7 7 ''unsub'' sub_at_zero) = Some (Unsubscribed, MainKbd False)
   \<and> subs unsub_at_zero = []
   \<and> state_file unsub_at_zero = Doc [(''7'', 0)]
   \<and> json_dumps (subs unsub_at_zero) = []
   \<and> subs (restart unsub_at_zero) = [(KStr ''7'', 0)]"
proof -
  have g: "dict_get (subs sub_at_zero) (KInt 7) = Some 0"
    by (simp add: sub_at_zero_eval)
  have u: "subs unsub_at_zero = []" "state_file unsub_at_zero = Doc [(''7'', 0)]"
    using unsubscribe_zero_baseline_skips_write[OF g, of "env_ok (Ticker 0)" 7]
    by (simp_all add: unsub_at_zero_def sub_at_zero_eval)
  have r: "fst (cb_btn (env_ok (Ticker 0)) 7 7 ''unsub'' sub_at_zero) = Some (Unsubscribed, MainKbd False)"
    by (simp add: cb_btn_def split_beta Let_def)
  have l: "subs (restart unsub_at_zero) = [(KStr ''7'', 0)]"
    by (simp add: restart_def main_fields read_json_def json_loads_def u)
  from sub_at_zero_eval u r l show ?thesis by (simp add: json_dumps_def)
qed

subsection \<open>Reloading\<close>

lemma foldl_dict_set_fresh:
  "distinct (map fst acc @ map (KStr \<circ> fst) doc) \<Longrightarrow>
   foldl (\<lambda>d (k, v). dict_set (KStr k) v d) acc doc = acc @ map (\<lambda>(k, v). (KStr k, v)) doc"
proof (induction doc arbitrary: acc)
  case Nil
  show ?case by simp
next
  case (Cons kv doc)
  obtain k v where kv: "kv = (k, v)" by (cases kv)
  from Cons.prems kv have nin: "KStr k \<notin> fst ` set acc" by auto
  from Cons.prems kv have d: "distinct (map fst (acc @ [(KStr k, v)]) @ map (KStr \<circ> fst) doc)"
    by (auto simp: comp_def)
  from Cons.IH[OF d] show ?case
    by (simp add: kv dict_set_fresh[OF nin])
qed

lemma json_loads_distinct:
  "distinct (map fst doc) \<Longrightarrow> json_loads doc = map (\<lambda>(k, v). (KStr k, v)) doc"
  using foldl_dict_set_fresh[of "[]" doc]
  by (simp add: json_loads_def distinct_map inj_on_def)

text \<open>
  What a save followed by a load gives: the same items in the same order, every key
  replaced by its text. Only a dictionary whose keys are all strings comes back as it was.
\<close>

lemma json_roundtrip:
  "distinct (map (key_str \<circ> fst) d) \<Longrightarrow>
   json_loads (json_dumps d) = map (\<lambda>(k, v). (KStr (key_str k), v)) d"
proof -
  assume "distinct (map (key_str \<circ> fst) d)"
  then have "distinct (map fst (json_dumps d))"
    by (simp add: json_dumps_def comp_def split_beta)
  from json_loads_distinct[OF this] show ?thesis
    by (simp add: json_dumps_def comp_def split_beta)
qed

lemma restart_after_save:
  assumes "disk_ok e" and "distinct (map (key_str \<circ> fst) (subs s))"
  shows "subs (restart (write_state e s)) = map (\<lambda>(k, v). (KStr (key_str k), v)) (subs s)"
    and "interval (restart (write_collab e s)) = interval s"
  using assms json_roundtrip[OF assms(2)]
  by (simp_all add: restart_def main_fields read_json_def write_state_def write_collab_def
        write_json_def json_loads_def json_dumps_def)

text \<open>
  Claim C3 on a dictionary with an integer key. Chat 123 subscribes at 50000 and the
  state is saved; after a restart the threshold is the same, the baseline is the same,
  but the key is the string \<^verbatim>\<open>"123"\<close>: \<^verbatim>\<open>123 in _subs\<close> is now false, and the
  Unsubscribe button of chat 123 removes nothing.
\<close>

theorem restart_turns_integer_keys_into_strings:
  "subs sub_123 = [(KInt 123, 50000)]
   \<and> interval sub_123 = 200
   \<and> subs (restart sub_123) = [(KStr ''123'', 50000)]
   \<and> interval (restart sub_123) = 200
   \<and> dict_contains (KInt 123) (subs sub_123)
   \<and> \<not> dict_contains (KInt 123) (subs (restart sub_123))
   \<and> subs (snd (cb_btn (env_ok (Ticker 50000)) 123 123 ''unsub'' (restart sub_123))) =
        [(KStr ''123'', 50000)]"
proof -
  have a: "subs sub_123 = [(KInt 123, 50000)]" "interval sub_123 = 200"
      "state_file sub_123 = Doc [(''123'', 50000)]" "collab_file sub_123 = Absent"
    by (simp_all add: sub_123_def cb_btn_def get_price_def write_state_def write_json_def
          json_dumps_def str_int_123 ex)
  have b: "subs (restart sub_123) = [(KStr ''123'', 50000)]" "interval (restart sub_123) = 200"
    by (simp_all add: restart_def main_fields read_json_def json_loads_def a DEFAULT_INT_def)
  have c: "subs (snd (cb_btn (env_ok (Ticker 50000)) 123 123 ''unsub'' (restart sub_123))) =
        [(KStr ''123'', 50000)]"
    by (simp add: cb_btn_def dict_pop_def truthy_opt_def b)
  from a b c show ?thesis by (simp add: dict_contains_def)
qed

subsection \<open>The threshold\<close>

lemma offered_data_eval:
  "offered_data = [''noop'', ''unsub'', ''interval'', ''price'', ''sub'', ''interval'', ''price'',
                   ''step_50'', ''step_100'', ''step_200'', ''step_500'', ''step_custom'']"
  by (simp add: offered_data_def main_kbd_def interval_kbd_def CHOICES_def str_int_def
        str_nat.simps digit_chars_def)

lemmas parse_defs = py_int_def to_ascii_def int_max_str_digits_def after_underscore_def strip_def
  is_space_def int_unsigned_def
  is_digit_def digit_chars_def digit_val_def starts_with_def

lemma offered_data_step_ok: "list_all step_ok offered_data"
  unfolding offered_data_eval list.pred_inject
  by (intro conjI TrueI; simp add: step_ok_def parse_defs)

lemma offered_step_ok: "data \<in> set offered_data \<Longrightarrow> step_ok data"
  using offered_data_step_ok by (simp add: list_all_iff)

lemma write_collab_file:
  "collab_file (write_collab e s) =
     (if disk_ok e then Doc [(''interval'', interval s)] else collab_file s)"
  by (simp add: write_collab_def write_json_def json_dumps_def)

lemma positive_store_written: "positive_store (Doc [(''interval'', n)]) \<longleftrightarrow> 0 < n"
  by (simp add: positive_store_def json_loads_def)

lemma change_interval_collab:
  "collab_file (snd (change_interval e val by_uid nc s)) =
     (if disk_ok e then Doc [(''interval'', val)] else collab_file s)"
  by (simp add: change_interval_def Let_def notify_loop_frame write_collab_file)

lemma change_interval_ok:
  "0 < val \<Longrightarrow> positive_store (collab_file s) \<Longrightarrow> threshold_ok (snd (change_interval e val by_uid nc s))"
  by (simp add: threshold_ok_def change_interval_frame change_interval_collab positive_store_written)

lemma cb_btn_threshold:
  "(interval (snd (cb_btn e user uid data s)), collab_file (snd (cb_btn e user uid data s))) =
     (if starts_with ''step_'' data \<and> data \<noteq> ''step_custom''
      then (case py_int (after_underscore data) of
              None \<Rightarrow> (interval s, collab_file s)
            | Some val \<Rightarrow> (val, collab_file (snd (change_interval e val uid False s))))
      else (interval s, collab_file s))"
proof -
  have ns: "\<not> starts_with ''step_'' ''price''" "\<not> starts_with ''step_'' ''sub''"
    "\<not> starts_with ''step_'' ''unsub''" "\<not> starts_with ''step_'' ''interval''"
    by (simp_all add: starts_with_def)
  show ?thesis
    using ns
    by (auto simp: cb_btn_def split_beta Let_def get_price_frame write_state_frame
          change_interval_frame split: option.splits)
qed

lemma msg_text_threshold:
  "(interval (snd (msg_text e user uid text s)), collab_file (snd (msg_text e user uid text s))) =
     (if user \<in> awaiting s \<and> \<not> rejected text
      then (case py_int text of
              None \<Rightarrow> (interval s, collab_file s)
            | Some val \<Rightarrow> (val, collab_file (snd (change_interval e val uid False
                                 (s\<lparr>awaiting := awaiting s - {user}\<rparr>)))))
      else (interval s, collab_file s))"
  by (auto simp: msg_text_def rejected_def split_beta Let_def change_interval_frame
        split: option.splits)

lemma watcher_cycle_threshold:
  "interval (watcher_cycle e s) = interval s \<and> collab_file (watcher_cycle e s) = collab_file s"
  by (cases "binance e")
     (simp_all add: watcher_cycle_tick write_state_frame alert_loop_frame
        watcher_cycle_def split_beta get_price_frame split: option.splits)

lemma restart_ok: "positive_store (collab_file s) \<Longrightarrow> threshold_ok (restart s)"
  by (cases "collab_file s")
     (auto simp: threshold_ok_def restart_def main_fields read_json_def positive_store_def
        DEFAULT_INT_def split: option.splits)

lemma handle_keeps_threshold_ok:
  assumes "threshold_ok s" and "offered ev"
  shows "threshold_ok (handle e ev s)"
proof (cases ev)
  case (Start uid)
  with assms show ?thesis by simp
next
  case PriceCmd
  with assms show ?thesis by (simp add: threshold_ok_def cmd_price_def split_beta get_price_frame)
next
  case (Button user uid data)
  with assms(2) have ok: "step_ok data" by (simp add: offered_step_ok)
  show ?thesis
  proof (cases "starts_with ''step_'' data \<and> data \<noteq> ''step_custom''")
    case True
    with ok obtain val where v: "py_int (after_underscore data) = Some val" "0 < val"
      by (auto simp: step_ok_def split: option.splits)
    from assms(1) have "positive_store (collab_file s)" by (simp add: threshold_ok_def)
    from change_interval_ok[OF v(2) this, of e uid False]
    have "0 < val \<and> positive_store (collab_file (snd (change_interval e val uid False s)))"
      by (simp add: threshold_ok_def change_interval_frame)
    with cb_btn_threshold[of e user uid data s] True v(1) Button show ?thesis
      by (simp add: threshold_ok_def)
  next
    case False
    with cb_btn_threshold[of e user uid data s] assms(1) Button show ?thesis
      by (simp add: threshold_ok_def)
  qed
next
  case (Text user uid t)
  show ?thesis
  proof (cases "user \<in> awaiting s \<and> \<not> rejected t")
    case True
    then obtain val where v: "py_int t = Some val" "0 < val"
      by (auto simp: rejected_def split: option.splits)
    from assms(1) have "positive_store (collab_file (s\<lparr>awaiting := awaiting s - {user}\<rparr>))"
      by (simp add: threshold_ok_def)
    from change_interval_ok[OF v(2) this, of e uid False]
    have "0 < val \<and> positive_store (collab_file (snd (change_interval e val uid False
                                 (s\<lparr>awaiting := awaiting s - {user}\<rparr>))))"
      by (simp add: threshold_ok_def change_interval_frame)
    with msg_text_threshold[of e user uid t s] True v(1) Text show ?thesis
      by (simp add: threshold_ok_def)
  next
    case False
    with msg_text_threshold[of e user uid t s] assms(1) Text show ?thesis
      by (simp add: threshold_ok_def)
  qed
next
  case Tick
  with assms show ?thesis by (simp add: threshold_ok_def watcher_cycle_threshold)
next
  case Restart
  from assms(1) have "positive_store (collab_file s)" by (simp add: threshold_ok_def)
  from restart_ok[OF this] Restart show ?thesis by simp
qed

lemma run_keeps_threshold_ok:
  "threshold_ok s \<Longrightarrow> list_all (\<lambda>(e, ev). offered ev) evs \<Longrightarrow> threshold_ok (run evs s)"
proof (induction evs arbitrary: s)
  case Nil
  then show ?case by simp
next
  case (Cons x evs)
  obtain e ev where x: "x = (e, ev)" by (cases x)
  from Cons.prems x have "threshold_ok (handle e ev s)" by (simp add: handle_keeps_threshold_ok)
  with Cons.IH[of "handle e ev s"] Cons.prems(2) x show ?case by simp
qed

lemma msg_text_rejects:
  assumes "rejected text"
  shows "subs (snd (msg_text e user uid text s)) = subs s
       \<and> interval (snd (msg_text e user uid text s)) = interval s
       \<and> state_file (snd (msg_text e user uid text s)) = state_file s
       \<and> collab_file (snd (msg_text e user uid text s)) = collab_file s
       \<and> sent (snd (msg_text e user uid text s)) = sent s
       \<and> fst (msg_text e user uid text s) =
           (if user \<in> awaiting s then Some (NeedPositiveInt, NoKbd) else None)"
  using assms
  by (auto simp: msg_text_def rejected_def Let_def split: option.splits)


lemma main_interval:
  "interval (main sf Absent) = DEFAULT_INT"
  "interval (main sf Unreadable) = DEFAULT_INT"
  "interval (main sf (Doc doc)) =
     (case dict_get (json_loads doc) (KStr ''interval'') of None \<Rightarrow> DEFAULT_INT | Some n \<Rightarrow> n)"
  by (simp_all add: main_fields read_json_def split: option.splits)

text \<open>
  Claim C7, as the code has it. From a state whose threshold is positive and whose
  threshold file holds a positive interval or none, every state reached by commands,
  texts, watcher passes, restarts and presses of buttons the bot has shown has a positive
  threshold. A start without the file, or with an unreadable one, takes the default 200,
  as does a start on a file without an interval; otherwise the start takes the stored
  interval as it is. The quick choices are positive. A text that \<^verbatim>\<open>int()\<close> refuses or
  whose value is not positive is refused: threshold, baselines and files stay as they
  were, nothing is broadcast, and the sender who was asked for a number gets the
  "positive integer" reply.
\<close>

theorem threshold_stays_positive:
  assumes "threshold_ok s" and "list_all (\<lambda>(e, ev). offered ev) evs"
  shows "(\<forall>n. 0 < interval (run (take n evs) s))
       \<and> threshold_ok (main sf Absent) \<and> threshold_ok (main sf Unreadable)
       \<and> interval (main sf Absent) = DEFAULT_INT \<and> interval (main sf Unreadable) = DEFAULT_INT
       \<and> interval (main sf (Doc doc)) =
           (case dict_get (json_loads doc) (KStr ''interval'') of
              None \<Rightarrow> DEFAULT_INT | Some n \<Rightarrow> n)
       \<and> list_all (\<lambda>n. 0 < n) CHOICES \<and> 0 < DEFAULT_INT
       \<and> (rejected input \<longrightarrow>
            subs (snd (msg_text e user uid input s)) = subs s
          \<and> interval (snd (msg_text e user uid input s)) = interval s
          \<and> state_file (snd (msg_text e user uid input s)) = state_file s
          \<and> collab_file (snd (msg_text e user uid input s)) = collab_file s
          \<and> sent (snd (msg_text e user uid input s)) = sent s
          \<and> fst (msg_text e user uid input s) =
              (if user \<in> awaiting s then Some (NeedPositiveInt, NoKbd) else None))"
proof -
  have a: "0 < interval (run (take n evs) s)" for n
  proof -
    from assms(2) have "list_all (\<lambda>(e, ev). offered ev) (take n evs)"
      by (auto simp: list_all_iff dest: in_set_takeD)
    from run_keeps_threshold_ok[OF assms(1) this] show ?thesis
      by (simp add: threshold_ok_def)
  qed
  have b: "threshold_ok (main sf Absent)" "threshold_ok (main sf Unreadable)"
    by (simp_all add: threshold_ok_def main_fields read_json_def positive_store_def DEFAULT_INT_def)
  have c: "list_all (\<lambda>n. 0 < n) CHOICES" "0 < DEFAULT_INT"
    by (simp_all add: CHOICES_def DEFAULT_INT_def)
  from a b c main_interval[of sf] main_interval(3)[of sf doc] msg_text_rejects[of input e user uid s]
  show ?thesis by blast
qed

lemma asking_eval:
  "awaiting asking = {1}" "interval asking = 200" "collab_file asking = Absent"
  "subs asking = []" "sent asking = []"
  by (simp_all add: asking_def cb_btn_def starts_with_def ex)

theorem threshold_stays_positive_witness:
  "threshold_ok asking
   \<and> list_all (\<lambda>(e, ev). offered ev) session
   \<and> rejected ''0''
   \<and> 1 \<in> awaiting asking
   \<and> 0 < interval (run session asking)
   \<and> fst (msg_text (env_ok (Ticker 50000)) 1 1 ''0'' asking) = Some (NeedPositiveInt, NoKbd)
   \<and> interval (snd (msg_text (env_ok (Ticker 50000)) 1 1 ''0'' asking)) = 200
   \<and> collab_file (snd (msg_text (env_ok (Ticker 50000)) 1 1 ''0'' asking)) = Absent
   \<and> interval (main Absent (Doc [(''interval'', 500)])) = 500
   \<and> interval (main Absent (Doc [])) = 200"
proof -
  have h1: "threshold_ok asking"
    by (simp add: threshold_ok_def positive_store_def asking_eval)
  have h2: "list_all (\<lambda>(e, ev). offered ev) session"
    by (simp add: session_def offered_data_eval)
  have h3: "rejected ''0''"
    by (simp add: rejected_def parse_defs)
  have h4: "1 \<in> awaiting asking" by (simp add: asking_eval)
  have l: "dict_get (json_loads [(''interval'', 500::int)]) (KStr ''interval'') = Some 500"
    "dict_get (json_loads ([] :: collab_doc)) (KStr ''interval'') = None"
    by (simp_all add: json_loads_def)
  note inst = threshold_stays_positive[OF h1 h2, where input = "''0''"
      and e = "env_ok (Ticker 50000)" and user = 1 and uid = 1 and sf = Absent
      and doc = "[(''interval'', 500)]"]
  from inst have "\<forall>n. 0 < interval (run (take n session) asking)" by blast
  then have p0: "0 < interval (run (take (length session) session) asking)" by blast
  from inst p0
  have p1: "0 < interval (run (take (length session) session) asking)
        \<and> fst (msg_text (env_ok (Ticker 50000)) 1 1 ''0'' asking) = Some (NeedPositiveInt, NoKbd)
        \<and> interval (snd (msg_text (env_ok (Ticker 50000)) 1 1 ''0'' asking)) = interval asking
        \<and> collab_file (snd (msg_text (env_ok (Ticker 50000)) 1 1 ''0'' asking)) = collab_file asking
        \<and> interval (main Absent (Doc [(''interval'', 500)])) = 500"
    using h3 h4 l(1) by simp
  from threshold_stays_positive[OF h1 h2, where sf = Absent and doc = "[]"]
  have p2: "interval (main Absent (Doc [])) = 200"
    using l(2) by (simp add: DEFAULT_INT_def)
  from h1 h2 h3 h4 p1 p2 show ?thesis by (simp add: asking_eval)
qed

text \<open>
  Claim C7 as stated fails: \<^verbatim>\<open>main\<close> takes the stored interval as it is, so a file
  holding 0 gives the watcher the threshold 0, and a subscriber whose baseline equals the
  price is alerted. The \<^verbatim>\<open>step_\<close> branch of \<^verbatim>\<open>cb_btn\<close> does not test the value
  either: callback data \<^verbatim>\<open>step_0\<close> sets the threshold 0.
\<close>

theorem stored_threshold_is_not_checked:
  "interval zero_store = 0
   \<and> subs zero_store = [(KStr ''1'', 50000)]
   \<and> alerted (env_ok (Ticker 50000)) zero_store (KStr ''1'')
   \<and> interval (snd (cb_btn (env_ok (Ticker 50000)) 1 1 ''step_0'' one_sub)) = 0"
proof -
  have a: "interval zero_store = 0" "subs zero_store = [(KStr ''1'', 50000)]"
    by (simp_all add: zero_store_def main_fields read_json_def json_loads_def)
  have b: "alerted (env_ok (Ticker 50000)) zero_store (KStr ''1'')"
    using alerted_iff[of "env_ok (Ticker 50000)" 50000 zero_store "KStr ''1''" 50000]
    by (simp add: a due_def env_ok_def fsub_same)
  have p: "py_int (after_underscore ''step_0'') = Some 0"
    by (simp add: parse_defs)
  have c: "interval (snd (cb_btn (env_ok (Ticker 50000)) 1 1 ''step_0'' one_sub)) = 0"
    using cb_btn_threshold[of "env_ok (Ticker 50000)" 1 1 "''step_0''" one_sub] p
    by (simp add: starts_with_def)
  from a b c show ?thesis by simp
qed

subsection \<open>Keys of the subscriber dictionary are distinct\<close>

text \<open>
  The watcher theorems assume that no key occurs twice in \<^verbatim>\<open>_subs\<close>, as in any Python
  dictionary. The model keeps it so: it holds after \<^verbatim>\<open>main\<close> and every handler and
  watcher pass preserves it.
\<close>

lemma json_loads_keys_distinct: "distinct (map fst (json_loads doc))"
proof -
  have "distinct (map fst acc) \<Longrightarrow>
        distinct (map fst (foldl (\<lambda>d (k, v). dict_set (KStr k) v d) acc doc))" for acc :: "'a pydict"
    by (induction doc arbitrary: acc) (simp_all add: split_beta distinct_dict_set)
  from this[of "[]"] show ?thesis by (simp add: json_loads_def)
qed

lemma main_keys_distinct: "distinct (map fst (subs (main sf cf)))"
  by (cases sf) (simp_all add: main_fields read_json_def json_loads_keys_distinct)

lemma alert_loop_keys_distinct:
  "distinct (map fst (subs s)) \<Longrightarrow> distinct (map fst (subs (alert_loop e p step items s)))"
  by (induction e p step items s rule: alert_loop.induct) (simp_all add: Let_def distinct_dict_set)

lemma watcher_cycle_keys_distinct:
  "distinct (map fst (subs s)) \<Longrightarrow> distinct (map fst (subs (watcher_cycle e s)))"
  by (cases "binance e")
     (simp_all add: watcher_cycle_tick write_state_frame alert_loop_keys_distinct
        watcher_cycle_def split_beta get_price_frame split: option.splits)

lemma cb_btn_keys_distinct:
  "distinct (map fst (subs s)) \<Longrightarrow> distinct (map fst (subs (snd (cb_btn e user uid data s))))"
  by (auto simp: cb_btn_def split_beta Let_def get_price_frame write_state_frame dict_pop_def
        change_interval_frame distinct_dict_set distinct_dict_del split: option.splits)

lemma msg_text_keys_distinct:
  "distinct (map fst (subs s)) \<Longrightarrow> distinct (map fst (subs (snd (msg_text e user uid input s))))"
  by (auto simp: msg_text_def split_beta Let_def change_interval_frame split: option.splits)

lemma handle_keys_distinct:
  "distinct (map fst (subs s)) \<Longrightarrow> distinct (map fst (subs (handle e ev s)))"
  by (cases ev)
     (simp_all add: cmd_price_def split_beta get_price_frame cb_btn_keys_distinct
        msg_text_keys_distinct watcher_cycle_keys_distinct restart_def main_keys_distinct)

lemma run_keys_distinct:
  "distinct (map fst (subs s)) \<Longrightarrow> distinct (map fst (subs (run evs s)))"
  by (induction evs arbitrary: s) (auto simp: handle_keys_distinct)

end
